theory Spec2Isabelle
  imports Main "HOL-Library.Word"
begin

unbundle bit_operations_syntax

section \<open>ShadPKG: the PKG/PFS extractor of \<^verbatim>\<open>core/file_format/pkg.cpp\<close>\<close>

text \<open>
  A shallow embedding of \<^verbatim>\<open>GetPFSCOffset\<close>, \<^verbatim>\<open>PKG::Open\<close>, \<^verbatim>\<open>PKG::Extract\<close> and
  \<^verbatim>\<open>PKG::ExtractFiles\<close>. Machine integers are words of the width the source declares;
  signed arithmetic is two's complement with wrap-around. Memory that the source reads or
  writes outside a buffer is an explicit \<open>fault\<close>; a loop that may run forever is a partial
  function whose value \<open>None\<close> means that it does not return.
\<close>

subsection \<open>Bytes, buffers and faults\<close>

type_synonym u8 = "8 word"
type_synonym u16 = "16 word"
type_synonym u32 = "32 word"
type_synonym u64 = "64 word"

datatype fault = OutOfBounds | DivideByZero | SignedOverflow | LengthError

text \<open>Little-endian and big-endian readings of a byte sequence (the host is little-endian).\<close>

fun le_word :: "u8 list \<Rightarrow> 'a::len word" where
  "le_word [] = 0"
| "le_word (b # bs) = ucast b OR push_bit 8 (le_word bs)"

definition be_word :: "u8 list \<Rightarrow> 'a::len word" where
  "be_word bs = le_word (rev bs)"

text \<open>
  Storing \<open>new\<close> at the start of a buffer that keeps its size: the bytes delivered replace a
  prefix, the rest of the buffer keeps what it held.
\<close>

definition fill :: "'a list \<Rightarrow> 'a list \<Rightarrow> 'a list" where
  "fill buf new = take (length buf) new @ drop (length new) buf"

text \<open>\<^verbatim>\<open>memcpy(dst, src + s, n)\<close> into the start of \<open>dst\<close>; both ranges must lie in their buffers.\<close>

definition memcpy :: "u8 list \<Rightarrow> u8 list \<Rightarrow> nat \<Rightarrow> nat \<Rightarrow> fault + u8 list" where
  "memcpy dst src s n =
     (if s + n \<le> length src \<and> n \<le> length dst
      then Inr (take n (drop s src) @ drop n dst)
      else Inl OutOfBounds)"

text \<open>\<^verbatim>\<open>memcpy(&value, p + i, sizeof(u32))\<close> of a little-endian \<^verbatim>\<open>u32\<close>.\<close>

definition memcpy_u32 :: "u8 list \<Rightarrow> nat \<Rightarrow> u32 option" where
  "memcpy_u32 buf i = (if i + 4 \<le> length buf then Some (le_word (take 4 (drop i buf))) else None)"

subsection \<open>\<^verbatim>\<open>GetPFSCOffset\<close>\<close>

definition PfscMagic :: u32 where
  "PfscMagic = 0x43534650"

text \<open>
  The loop variable is a \<^verbatim>\<open>u32\<close>: \<^verbatim>\<open>i += 0x10000\<close> wraps, so for an image longer than
  \<open>0xFFFF0000\<close> bytes without the magic the scan starts over and need not end.
\<close>

partial_function (option) GetPFSCOffset_loop :: "u8 list \<Rightarrow> u32 \<Rightarrow> (fault + u32) option" where
  "GetPFSCOffset_loop pfs_image i =
     (if unat i < length pfs_image then
        (case memcpy_u32 pfs_image (unat i) of
           None \<Rightarrow> Some (Inl OutOfBounds)
         | Some v \<Rightarrow> if v = PfscMagic then Some (Inr i)
                     else GetPFSCOffset_loop pfs_image (i + 0x10000))
      else Some (Inr (- 1)))"

definition GetPFSCOffset :: "u8 list \<Rightarrow> (fault + u32) option" where
  "GetPFSCOffset pfs_image = GetPFSCOffset_loop pfs_image 0x20000"

subsection \<open>Host paths and the output tree\<close>

text \<open>
  A \<^verbatim>\<open>std::filesystem::path\<close> is its list of components and whether it is absolute. A name
  taken from the package is one component.
\<close>

record fpath =
  is_abs :: bool
  comps :: "string list"

definition path_of :: "string \<Rightarrow> fpath" where
  "path_of s = \<lparr>is_abs = False, comps = [s]\<rparr>"

text \<open>
  \<^verbatim>\<open>std::filesystem::path(name)\<close> of a name read from the package: a name that starts with a
  slash is an absolute path.
\<close>

definition path_of_name :: "string \<Rightarrow> fpath" where
  "path_of_name s = \<lparr>is_abs = (s \<noteq> [] \<and> hd s = CHR ''/''), comps = [s]\<rparr>"

definition empty_path :: fpath where
  "empty_path = \<lparr>is_abs = False, comps = []\<rparr>"

text \<open>\<^verbatim>\<open>operator/\<close>: an absolute right operand replaces the left one.\<close>

definition path_div :: "fpath \<Rightarrow> fpath \<Rightarrow> fpath" where
  "path_div p q = (if is_abs q then q else p\<lparr>comps := comps p @ comps q\<rparr>)"

definition parent_path :: "fpath \<Rightarrow> fpath" where
  "parent_path p = p\<lparr>comps := butlast (comps p)\<rparr>"

definition filename :: "fpath \<Rightarrow> string" where
  "filename p = (if comps p = [] then [] else last (comps p))"

text \<open>\<^verbatim>\<open>fmt::UTF(extract_path.u8string()).data.ends_with("-UPDATE")\<close>, on the last component.\<close>

definition ends_with :: "string \<Rightarrow> string \<Rightarrow> bool" where
  "ends_with s suffix = (length suffix \<le> length s \<and> drop (length s - length suffix) s = suffix)"

text \<open>\<^verbatim>\<open>std::to_string\<close> of an unsigned value, and \<^verbatim>\<open>std::hex\<close> output of an \<^verbatim>\<open>int\<close>.\<close>

fun to_string :: "nat \<Rightarrow> string" where
  "to_string n =
     (if n < 10 then [''0123456789'' ! n]
      else to_string (n div 10) @ [''0123456789'' ! (n mod 10)])"

fun hex_string :: "nat \<Rightarrow> string" where
  "hex_string n =
     (if n < 16 then [''0123456789abcdef'' ! n]
      else hex_string (n div 16) @ [''0123456789abcdef'' ! (n mod 16)])"

declare to_string.simps [simp del] hex_string.simps [simp del]

text \<open>
  The output tree: the content of every file written and the directories created, in
  order. Opening a file for writing empties it; writes append. A path without a component
  names no file: opening it fails, and a write to a file that is not open writes nothing.
\<close>

record host =
  files :: "fpath \<rightharpoonup> u8 list"
  dirs :: "fpath list"

definition create_directories :: "fpath \<Rightarrow> host \<Rightarrow> host" where
  "create_directories p h = h\<lparr>dirs := dirs h @ [p]\<rparr>"

definition open_write :: "fpath \<Rightarrow> host \<Rightarrow> host" where
  "open_write p h = (if comps p = [] then h else h\<lparr>files := (files h)(p \<mapsto> [])\<rparr>)"

definition WriteRaw :: "fpath \<Rightarrow> u8 list \<Rightarrow> host \<Rightarrow> host" where
  "WriteRaw p bs h =
     (if comps p = [] then h
      else h\<lparr>files := (files h)(p \<mapsto> (case files h p of None \<Rightarrow> bs | Some old \<Rightarrow> old @ bs))\<rparr>)"

subsection \<open>The PKG file as a seekable byte source\<close>

text \<open>
  Modelled from the spec: \<^verbatim>\<open>Common::FS::IOFile\<close> (\<^verbatim>\<open>common/io_file.h\<close>) is not part of the
  sources. Section 4.1 of the specification gives positioned reads over the file and a seek
  that fails when it exceeds the file size. A read delivers the bytes that the file still
  holds from the position on and advances by as many; \<^verbatim>\<open>Extract\<close> never tests the result of
  a read.
\<close>

record IOFile =
  content :: "u8 list"
  pos :: nat

definition open_read :: "u8 list \<Rightarrow> IOFile" where
  "open_read bs = \<lparr>content = bs, pos = 0\<rparr>"

definition GetSize :: "IOFile \<Rightarrow> nat" where
  "GetSize f = length (content f)"

definition Tell :: "IOFile \<Rightarrow> nat" where
  "Tell f = pos f"

definition Seek :: "nat \<Rightarrow> IOFile \<Rightarrow> bool \<times> IOFile" where
  "Seek target f = (if target \<le> length (content f) then (True, f\<lparr>pos := target\<rparr>) else (False, f))"

text \<open>\<^verbatim>\<open>Seek(n, SeekOrigin::CurrentPosition)\<close>.\<close>

definition Seek_cur :: "nat \<Rightarrow> IOFile \<Rightarrow> bool \<times> IOFile" where
  "Seek_cur n f = Seek (pos f + n) f"

text \<open>A read of \<open>n\<close> bytes: what is delivered, and the file afterwards.\<close>

definition Read :: "nat \<Rightarrow> IOFile \<Rightarrow> u8 list \<times> IOFile" where
  "Read n f =
     (let got = take n (drop (pos f) (content f)) in (got, f\<lparr>pos := pos f + length got\<rparr>))"


subsection \<open>What the sources use but do not contain\<close>

text \<open>
  \<^verbatim>\<open>crypto.cpp\<close>, zlib, \<^verbatim>\<open>entry_name.cpp\<close> and the struct layouts of \<^verbatim>\<open>pkg.h\<close> and \<^verbatim>\<open>pfs.h\<close> are
  outside the sources. The primitives and decoders are parameters: every general theorem
  below holds for all of them.
\<close>

datatype keyset = PkgDerivedKey3Keyset | FakeKeyset

text \<open>
  The three fields of \<^verbatim>\<open>PFSCHdr\<close> that \<^verbatim>\<open>Extract\<close> uses are signed 64-bit integers
  (\<^verbatim>\<open>HOWWORKS.md\<close>, section 4.3), kept here as their bit patterns.
\<close>

record PFSCHdr =
  block_sz2 :: u64
  block_offsets :: u64
  data_length :: u64

record Inode =
  Mode :: u16
  Size :: u64
  Blocks :: u32
  loc :: u32

record externals =
  GetEntryNameByType :: "u32 \<Rightarrow> string"
  flagNames :: "(u32 \<times> string) list"
  isFlagSet :: "u32 \<Rightarrow> u32 \<Rightarrow> bool"
  sha256 :: "u8 list \<Rightarrow> u8 list"
  aes128_cbc_decrypt :: "u8 list \<Rightarrow> u8 list \<Rightarrow> u8 list \<Rightarrow> u8 list"
  rsa2048_decrypt :: "keyset \<Rightarrow> u8 list \<Rightarrow> u8 list"
  hmac_sha256 :: "u8 list \<Rightarrow> u8 list \<Rightarrow> u8 list"
  aes128_xts_decrypt :: "u8 list \<Rightarrow> u8 list \<Rightarrow> u64 \<Rightarrow> u8 list \<Rightarrow> u8 list"
  zlib_inflate :: "u8 list \<Rightarrow> nat \<Rightarrow> u8 list"
  sizeof_PFSCHdr :: nat
  PFSCHdr_of :: "u8 list \<Rightarrow> PFSCHdr"
  Inode_of :: "u8 list \<Rightarrow> Inode"
  sizeof_Dirent :: nat

text \<open>
  Modelled from the spec: the wrappers of \<^verbatim>\<open>crypto.cpp\<close>, which is not part of the sources,
  after sections 4.2 and 4.5 of the specification and section 3 of \<^verbatim>\<open>HOWWORKS.md\<close>. Each
  writes its result into a caller's fixed-size array. \<open>aes128_cbc_decrypt\<close> takes the key,
  the IV and the ciphertext; \<open>aes128_xts_decrypt\<close> the data key, the tweak key, the first
  sector index and the ciphertext.
\<close>

definition RSA2048Decrypt :: "externals \<Rightarrow> u8 list \<Rightarrow> u8 list \<Rightarrow> bool \<Rightarrow> u8 list" where
  "RSA2048Decrypt x dec_key ciphertext is_dk3 =
     fill dec_key
       (rsa2048_decrypt x (if is_dk3 then PkgDerivedKey3Keyset else FakeKeyset) ciphertext)"

definition ivKeyHASH256 :: "externals \<Rightarrow> u8 list \<Rightarrow> u8 list \<Rightarrow> u8 list" where
  "ivKeyHASH256 x cipher_input ivkey_result = fill ivkey_result (sha256 x cipher_input)"

definition aesCbcCfb128Decrypt :: "externals \<Rightarrow> u8 list \<Rightarrow> u8 list \<Rightarrow> u8 list \<Rightarrow> u8 list" where
  "aesCbcCfb128Decrypt x ivkey ciphertext decrypted =
     fill decrypted (aes128_cbc_decrypt x (take 16 (drop 16 ivkey)) (take 16 ivkey) ciphertext)"

definition aesCbcCfb128DecryptEntry :: "externals \<Rightarrow> u8 list \<Rightarrow> u8 list \<Rightarrow> u8 list \<Rightarrow> u8 list" where
  "aesCbcCfb128DecryptEntry x ivkey ciphertext decrypted =
     fill decrypted (aes128_cbc_decrypt x (take 16 (drop 16 ivkey)) (take 16 ivkey) ciphertext)"

text \<open>The pair returned is \<open>(dataKey, tweakKey)\<close>.\<close>

definition PfsGenCryptoKey ::
  "externals \<Rightarrow> u8 list \<Rightarrow> u8 list \<Rightarrow> u8 list \<Rightarrow> u8 list \<Rightarrow> u8 list \<times> u8 list" where
  "PfsGenCryptoKey x ekpfs seed dataKey0 tweakKey0 =
     (let d = hmac_sha256 x ekpfs ([1, 0, 0, 0] @ seed)
      in (fill dataKey0 (take 16 (drop 16 d)), fill tweakKey0 (take 16 d)))"

definition decryptPFS ::
  "externals \<Rightarrow> u8 list \<Rightarrow> u8 list \<Rightarrow> u8 list \<Rightarrow> u8 list \<Rightarrow> u64 \<Rightarrow> u8 list" where
  "decryptPFS x dataKey0 tweakKey0 src_image dst_image sector =
     fill dst_image (aes128_xts_decrypt x dataKey0 tweakKey0 sector src_image)"

text \<open>
  \<^verbatim>\<open>DecompressPFSC\<close>: zlib inflates into the caller's buffer, at most as many bytes as it
  holds.
\<close>

definition DecompressPFSC :: "externals \<Rightarrow> u8 list \<Rightarrow> u8 list \<Rightarrow> u8 list" where
  "DecompressPFSC x compressed_data decompressed_data =
     fill decompressed_data (zlib_inflate x compressed_data (length decompressed_data))"

subsection \<open>The state of a \<^verbatim>\<open>PKG\<close> object\<close>

record PKGHeader =
  magic :: u32
  pkg_content_flags :: u32
  pkg_size :: u64
  pkg_content_offset :: u64
  pkg_content_size :: u64
  pkg_table_entry_offset :: u32
  pkg_table_entry_count :: u32
  pfs_image_offset :: u64
  pfs_cache_size :: u32

record FSTableEntry =
  name :: string
  inode :: u32
  type :: u32

text \<open>
  The file-type constants of \<^verbatim>\<open>pfs.h\<close>, with the values that the table \<^verbatim>\<open>type_str\<close> of
  \<^verbatim>\<open>main\<close> gives them.
\<close>

definition PFS_FILE :: u32 where "PFS_FILE = 2"
definition PFS_DIR :: u32 where "PFS_DIR = 3"
definition PFS_CURRENT_DIR :: u32 where "PFS_CURRENT_DIR = 4"

text \<open>
  A \<^verbatim>\<open>PKGEntry\<close> is kept as the 32 bytes of the struct: six big-endian \<^verbatim>\<open>u32\<close> fields and
  eight bytes of padding. \<open>extractPaths\<close> is keyed by the bit pattern of its \<^verbatim>\<open>int\<close> key.
  The last field is the output tree, which is not a member of the class.
\<close>

record PKG =
  pkgSize :: nat
  pkgheader :: PKGHeader
  pkgFlags :: string
  pkgTitleID :: "u8 list"
  sfo :: "u8 list"
  pkgEntries :: "u8 list list"
  extract_path :: fpath
  pkgpath :: fpath
  current_dir :: fpath
  extractPaths :: "u32 \<rightharpoonup> fpath"
  fsTable :: "FSTableEntry list"
  iNodeBuf :: "Inode list"
  sectorMap :: "u64 list"
  pfsc_offset :: u64
  dk3 :: "u8 list"
  ivKey :: "u8 list"
  imgKey :: "u8 list"
  ekpfsKey :: "u8 list"
  dataKey :: "u8 list"
  tweakKey :: "u8 list"
  decNp :: "u8 list"
  disk :: host

definition entry_id :: "u8 list \<Rightarrow> u32" where
  "entry_id entry = be_word (take 4 entry)"

definition entry_offset :: "u8 list \<Rightarrow> u32" where
  "entry_offset entry = be_word (take 4 (drop 16 entry))"

definition entry_size :: "u8 list \<Rightarrow> u32" where
  "entry_size entry = be_word (take 4 (drop 20 entry))"



text \<open>\<^verbatim>\<open>extractPaths[k]\<close>: \<^verbatim>\<open>operator[]\<close> inserts an empty path for a key that is absent.\<close>

definition at_key :: "(u32 \<rightharpoonup> fpath) \<Rightarrow> u32 \<Rightarrow> fpath \<times> (u32 \<rightharpoonup> fpath)" where
  "at_key m k = (case m k of None \<Rightarrow> (empty_path, m(k \<mapsto> empty_path)) | Some q \<Rightarrow> (q, m))"

subsection \<open>Reading a slot of the entry table\<close>

text \<open>Writing \<open>new\<close> into a buffer at offset \<open>off\<close>.\<close>

definition store :: "'a list \<Rightarrow> nat \<Rightarrow> 'a list \<Rightarrow> 'a list" where
  "store buf off new = take off buf @ fill (drop off buf) new"

text \<open>\<^verbatim>\<open>file.Read(entry.field)\<close> for the 4-byte field at offset \<open>off\<close> of the struct.\<close>

definition read_field :: "nat \<Rightarrow> u8 list \<times> IOFile \<Rightarrow> u8 list \<times> IOFile" where
  "read_field off ef = (let r = Read 4 (snd ef) in (store (fst ef) off (fst r), snd r))"

text \<open>
  \<^verbatim>\<open>PKGEntry entry{}\<close> is zeroed; the six fields are read one after the other, and the eight
  reserved bytes of the slot are skipped by a relative seek: they never reach the struct.
\<close>

definition read_entry :: "IOFile \<Rightarrow> u8 list \<times> IOFile" where
  "read_entry f =
     (let ef = read_field 20 (read_field 16 (read_field 12 (read_field 8 (read_field 4
                 (read_field 0 (replicate 32 0, f))))))
      in (fst ef, snd (Seek_cur 8 (snd ef))))"

subsection \<open>\<^verbatim>\<open>PKG::Open\<close>\<close>

text \<open>
  A PKG file is given by its bytes and by the header fields that the layout of \<^verbatim>\<open>pkg.h\<close>
  decodes from the header once it is read. \<open>None\<close> is a file that cannot be opened. The
  header is read over the one that the object holds, so a file shorter than the header
  replaces a prefix of its bytes only: the magic is the big-endian value of the first four
  bytes of the struct, which are the file's as far as the file has them and the old ones
  after that.
\<close>

type_synonym pkg_file = "PKGHeader \<times> u8 list"

definition be_bytes :: "u32 \<Rightarrow> u8 list" where
  "be_bytes w = [ucast (drop_bit 24 w), ucast (drop_bit 16 w), ucast (drop_bit 8 w), ucast w]"

definition read_pkgheader :: "pkg_file \<Rightarrow> PKGHeader \<Rightarrow> PKGHeader" where
  "read_pkgheader pf old =
     (fst pf)\<lparr>magic := be_word (fill (be_bytes (magic old)) (take 4 (snd pf)))\<rparr>"

definition add_flag :: "externals \<Rightarrow> u32 \<Rightarrow> string \<Rightarrow> u32 \<times> string \<Rightarrow> string" where
  "add_flag x flags acc flag =
     (if isFlagSet x flags (fst flag)
      then (if acc \<noteq> [] then acc @ '', '' else acc) @ snd flag
      else acc)"

text \<open>
  The entry loop of \<^verbatim>\<open>Open\<close>, with the number of iterations left. After the bytes of
  \<^verbatim>\<open>param.sfo\<close> are read the position is not restored.
\<close>

fun Open_entries :: "externals \<Rightarrow> nat \<Rightarrow> IOFile \<Rightarrow> string \<Rightarrow> PKG \<Rightarrow> bool \<times> string \<times> PKG" where
  "Open_entries x 0 f failreason p = (True, failreason, p)"
| "Open_entries x (Suc k) f failreason p =
     (let entry = fst (read_entry f);
          f1 = snd (read_entry f);
          p1 = p\<lparr>pkgEntries := pkgEntries p @ [entry]\<rparr>
      in if GetEntryNameByType x (entry_id entry) = ''param.sfo'' then
           (if fst (Seek (unat (entry_offset entry)) f1) then
              let f2 = snd (Seek (unat (entry_offset entry)) f1);
                  n = unat (entry_size entry);
                  r = Read n f2
              in Open_entries x k (snd r) failreason (p1\<lparr>sfo := fill (replicate n 0) (fst r)\<rparr>)
            else (False, ''Failed to seek to param.sfo offset'', p1\<lparr>sfo := []\<rparr>))
         else Open_entries x k f1 failreason p1)"

definition Open :: "externals \<Rightarrow> pkg_file option \<Rightarrow> string \<Rightarrow> PKG \<Rightarrow> bool \<times> string \<times> PKG" where
  "Open x file failreason p =
     (case file of
        None \<Rightarrow> (False, failreason, p)
      | Some pf \<Rightarrow>
          let f0 = open_read (snd pf);
              p1 = p\<lparr>pkgSize := GetSize f0, pkgheader := read_pkgheader pf (pkgheader p)\<rparr>;
              f1 = snd (Read 0x1000 f0)
          in if magic (pkgheader p1) \<noteq> 0x7F434E54 then (False, failreason, p1)
             else
               let p2 = p1\<lparr>pkgFlags := foldl (add_flag x (pkg_content_flags (pkgheader p1)))
                                            (pkgFlags p1) (flagNames x)\<rparr>;
                   r = Read 9 (snd (Seek 0x47 f1));
                   p3 = p2\<lparr>pkgTitleID := fill (pkgTitleID p2) (fst r)\<rparr>;
                   offset = pkg_table_entry_offset (pkgheader p3);
                   n_files = pkg_table_entry_count (pkgheader p3)
               in if fst (Seek (unat offset) (snd r)) then
                    Open_entries x (unat n_files) (snd (Seek (unat offset) (snd r))) failreason
                      (p3\<lparr>pkgEntries := []\<rparr>)
                  else (False, ''Failed to seek to PKG table entry offset'', p3))"


subsection \<open>\<^verbatim>\<open>PKG::Extract\<close>: the entry loop\<close>

text \<open>
  What the loop carries besides the object: the file and the two local arrays that a read
  may leave partly as they were (\<open>key1\<close> is the seven 256-byte keys in a row).
\<close>

record entry_state =
  pkg_in :: IOFile
  key1 :: "u8 list"
  imgkeydata :: "u8 list"
  obj :: PKG

definition resize :: "u8 list \<Rightarrow> nat \<Rightarrow> u8 list" where
  "resize v n = take n v @ replicate (n - length v) 0"

text \<open>\<^verbatim>\<open>extract_path / "sce_sys" / name\<close>.\<close>

definition sce_sys :: "PKG \<Rightarrow> string \<Rightarrow> fpath" where
  "sce_sys p nm = path_div (path_div (extract_path p) (path_of ''sce_sys'')) (path_of nm)"

text \<open>
  The 64-byte hash input: \<^verbatim>\<open>memcpy\<close> of the 32 bytes of the struct \<open>entry\<close>, then of the 32
  bytes of \<open>dk3\<close>.
\<close>

definition concatenated_ivkey_dk3 :: "u8 list \<Rightarrow> u8 list \<Rightarrow> u8 list" where
  "concatenated_ivkey_dk3 entry k = take 32 entry @ take 32 k"

text \<open>
  The chain \<^verbatim>\<open>if (entry.id == 0x1) ... else if (entry.id == 0x80)\<close>. At 0x10 the 32-byte
  seed digest and the seven 32-byte digests are read and dropped, then the seven keys; at
  0x20 the key chain runs on whatever \<open>dk3\<close> (the member \<^verbatim>\<open>dk3_\<close>) holds. Neither seek is tested.
\<close>

definition derive_keys :: "externals \<Rightarrow> u8 list \<Rightarrow> entry_state \<Rightarrow> entry_state" where
  "derive_keys x entry s =
     (if entry_id entry = 0x1 then s
      else if entry_id entry = 0x10 then
        let f2 = snd (Seek (unat (entry_offset entry)) (pkg_in s));
            f3 = snd (Read 32 f2);
            f4 = snd (Read (7 * 32) f3);
            r = Read (7 * 256) f4;
            k = fill (key1 s) (fst r)
        in s\<lparr>pkg_in := snd r, key1 := k,
              obj := (obj s)\<lparr>dk3 := RSA2048Decrypt x (dk3 (obj s)) (take 256 (drop (3 * 256) k)) True\<rparr>\<rparr>
      else if entry_id entry = 0x20 then
        let f2 = snd (Seek (unat (entry_offset entry)) (pkg_in s));
            r = Read 256 f2;
            d = fill (imgkeydata s) (fst r);
            iv = ivKeyHASH256 x (concatenated_ivkey_dk3 entry (dk3 (obj s))) (ivKey (obj s));
            img = aesCbcCfb128Decrypt x iv d (imgKey (obj s));
            ek = RSA2048Decrypt x (ekpfsKey (obj s)) img False
        in s\<lparr>pkg_in := snd r, imgkeydata := d,
              obj := (obj s)\<lparr>ivKey := iv, imgKey := img, ekpfsKey := ek\<rparr>\<rparr>
      else if entry_id entry = 0x80 then s
      else s)"

text \<open>
  The NPDRM entries are decrypted and written again over the raw copy. \<open>data\<close> is the raw
  payload read just before.
\<close>

definition decrypt_np :: "externals \<Rightarrow> u8 list \<Rightarrow> fpath \<Rightarrow> u8 list \<Rightarrow> PKG \<Rightarrow> PKG" where
  "decrypt_np x entry out data p =
     (let iv = ivKeyHASH256 x (concatenated_ivkey_dk3 entry (dk3 p)) (ivKey p);
          dec = aesCbcCfb128DecryptEntry x iv data (decNp p)
      in p\<lparr>ivKey := iv, decNp := dec, disk := WriteRaw out dec (open_write out (disk p))\<rparr>)"

text \<open>
  One iteration. \<open>Inl\<close> is a \<^verbatim>\<open>return false\<close> with the \<open>failreason\<close> assigned; \<open>Inr\<close> goes on
  to the next slot, after the position saved in \<open>currentPos\<close> is restored.
\<close>

definition Extract_entry :: "externals \<Rightarrow> entry_state \<Rightarrow> (string \<times> PKG) + entry_state" where
  "Extract_entry x s =
     (let entry = fst (read_entry (pkg_in s));
          f1 = snd (read_entry (pkg_in s));
          currentPos = Tell f1;
          nm = GetEntryNameByType x (entry_id entry);
          p1 = (obj s)\<lparr>disk := create_directories (parent_path (sce_sys (obj s) nm)) (disk (obj s))\<rparr>;
          n = unat (entry_size entry)
      in if nm = [] then
           let out = sce_sys p1 (to_string (unat (entry_id entry)));
               p2 = p1\<lparr>disk := open_write out (disk p1)\<rparr>
           in if fst (Seek (unat (entry_offset entry)) f1) then
                let r = Read n (snd (Seek (unat (entry_offset entry)) f1));
                    data = fill (replicate n 0) (fst r)
                in Inr (s\<lparr>pkg_in := snd (Seek currentPos (snd r)),
                          obj := p2\<lparr>disk := WriteRaw out data (disk p2)\<rparr>\<rparr>)
              else Inl (''Failed to seek to PKG entry offset'', p2)
         else
           let s1 = derive_keys x entry (s\<lparr>pkg_in := f1, obj := p1\<rparr>);
               out = sce_sys p1 nm;
               p2 = (obj s1)\<lparr>disk := open_write out (disk (obj s1))\<rparr>
           in if fst (Seek (unat (entry_offset entry)) (pkg_in s1)) then
                let r = Read n (snd (Seek (unat (entry_offset entry)) (pkg_in s1)));
                    data = fill (replicate n 0) (fst r);
                    p3 = p2\<lparr>disk := WriteRaw out data (disk p2)\<rparr>
                in if entry_id entry = 0x400 \<or> entry_id entry = 0x401 \<or>
                      entry_id entry = 0x402 \<or> entry_id entry = 0x403 then
                     let p4 = p3\<lparr>decNp := resize (decNp p3) n\<rparr>
                     in if fst (Seek (unat (entry_offset entry)) (snd r)) then
                          Inr (s1\<lparr>pkg_in := snd (Seek currentPos
                                                (snd (Seek (unat (entry_offset entry)) (snd r)))),
                                  obj := decrypt_np x entry out data p4\<rparr>)
                        else Inl (''Failed to seek to PKG entry offset'', p4)
                   else Inr (s1\<lparr>pkg_in := snd (Seek currentPos (snd r)), obj := p3\<rparr>)
              else Inl (''Failed to seek to PKG entry offset'', p2))"

function Extract_entries ::
  "externals \<Rightarrow> nat \<Rightarrow> nat \<Rightarrow> entry_state \<Rightarrow> (string \<times> PKG) + entry_state" where
  "Extract_entries x n_files i s =
     (if i < n_files then
        (case Extract_entry x s of
           Inl e \<Rightarrow> Inl e
         | Inr s' \<Rightarrow> Extract_entries x n_files (Suc i) s')
      else Inr s)"
  by pat_completeness auto
termination
  by (relation "measure (\<lambda>(x, n_files, i, s). n_files - i)") auto

declare Extract_entries.simps [simp del]

text \<open>
  The state in which iteration \<open>i\<close> of the entry loop starts, if the loop gets there
  (\<open>None\<close> after a \<^verbatim>\<open>return false\<close>).
\<close>

primrec state_at_iteration :: "externals \<Rightarrow> entry_state \<Rightarrow> nat \<Rightarrow> entry_state option" where
  "state_at_iteration x s0 0 = Some s0"
| "state_at_iteration x s0 (Suc i) =
     (case state_at_iteration x s0 i of
        None \<Rightarrow> None
      | Some s \<Rightarrow> (case Extract_entry x s of Inl e \<Rightarrow> None | Inr s' \<Rightarrow> Some s'))"


subsection \<open>\<^verbatim>\<open>PKG::Extract\<close>: the head of the PFS image\<close>

text \<open>
  The loop that fills \<open>sectorMap\<close>, over the indices still to do:
  \<^verbatim>\<open>memcpy(&sectorMap[i], pfsc.data() + pfsChdr.block_offsets + i * 8, 8)\<close>.
\<close>

fun read_sectorMap :: "u8 list \<Rightarrow> u64 \<Rightarrow> nat list \<Rightarrow> u64 list \<Rightarrow> fault + u64 list" where
  "read_sectorMap pfsc bo [] sm = Inr sm"
| "read_sectorMap pfsc bo (i # rest) sm =
     (if 0 \<le> sint bo \<and> nat (sint bo) + i * 8 + 8 \<le> length pfsc
      then read_sectorMap pfsc bo rest (sm[i := le_word (take 8 (drop (nat (sint bo) + i * 8) pfsc))])
      else Inl OutOfBounds)"

definition resize_sectorMap :: "u64 list \<Rightarrow> nat \<Rightarrow> u64 list" where
  "resize_sectorMap v n = take n v @ replicate (n - length v) 0"

text \<open>
  The branch \<^verbatim>\<open>if (length != 0)\<close>: the encrypted head is read and decrypted
  (\<open>decrypt_pfs_head\<close>), then the PFSC blob is located and the sector map loaded. The
  result is \<open>num_blocks\<close>, the buffer \<open>pfsc\<close> and the object. The offset that
  \<^verbatim>\<open>GetPFSCOffset\<close> returns is used as it comes: nothing tests it against \<open>-1\<close>.
  The division of the two signed fields truncates towards zero, and the quotient is cut to
  the 32 bits of the \<^verbatim>\<open>int\<close> \<open>num_blocks\<close>.
\<close>

definition decrypt_pfs_head :: "externals \<Rightarrow> IOFile \<Rightarrow> u32 \<Rightarrow> PKG \<Rightarrow> u8 list" where
  "decrypt_pfs_head x f len p =
     (let pfs_encrypted = fill (replicate (unat len) 0)
                            (fst (Read (unat len)
                                   (snd (Seek (unat (pfs_image_offset (pkgheader p))) f))))
      in decryptPFS x (dataKey p) (tweakKey p) pfs_encrypted (replicate (unat len) 0) 0)"

definition Extract_pfs_head ::
  "externals \<Rightarrow> IOFile \<Rightarrow> u32 \<Rightarrow> PKG \<Rightarrow> (fault + u32 \<times> u8 list \<times> PKG) option" where
  "Extract_pfs_head x f len p =
     (let pfs_dec = decrypt_pfs_head x f len p
      in case GetPFSCOffset pfs_dec of
           None \<Rightarrow> None
         | Some (Inl e) \<Rightarrow> Some (Inl e)
         | Some (Inr off) \<Rightarrow>
             let p1 = p\<lparr>pfsc_offset := ucast off\<rparr>
             in (case memcpy (replicate (unat len) 0) pfs_dec (unat (pfsc_offset p1))
                        (unat ((ucast len :: u64) - pfsc_offset p1)) of
                   Inl e \<Rightarrow> Some (Inl e)
                 | Inr pfsc \<Rightarrow>
                     if length pfsc < sizeof_PFSCHdr x then Some (Inl OutOfBounds)
                     else
                       let pfsChdr = PFSCHdr_of x (take (sizeof_PFSCHdr x) pfsc)
                       in if block_sz2 pfsChdr = 0 then Some (Inl DivideByZero)
                          else if sint (data_length pfsChdr) = - (2 ^ 63) \<and> sint (block_sz2 pfsChdr) = - 1
                            then Some (Inl SignedOverflow)
                          else
                            let num_blocks =
                                  (word_of_int (sgn (sint (data_length pfsChdr)) *
                                                sgn (sint (block_sz2 pfsChdr)) *
                                                (\<bar>sint (data_length pfsChdr)\<bar> div
                                                 \<bar>sint (block_sz2 pfsChdr)\<bar>)) :: u32)
                            in if sint (num_blocks + 1) < 0 then Some (Inl LengthError)
                               else
                                 (case read_sectorMap pfsc (block_offsets pfsChdr)
                                         [0 ..< nat (sint (num_blocks + 1))]
                                         (resize_sectorMap (sectorMap p1)
                                            (nat (sint (num_blocks + 1)))) of
                                    Inl e \<Rightarrow> Some (Inl e)
                                  | Inr sm \<Rightarrow> Some (Inr (num_blocks, pfsc, p1\<lparr>sectorMap := sm\<rparr>)))))"

subsection \<open>\<^verbatim>\<open>PKG::Extract\<close>: inodes and dirents\<close>

text \<open>
  The locals of the block loop, with the decompressed block (\<open>block_data\<close> is the vector
  \<^verbatim>\<open>decompressedData\<close> of \<^verbatim>\<open>Extract\<close>) and the object.
\<close>

record walk_state =
  ent_size :: u32
  ndinode :: u32
  ndinode_counter :: u32
  dinode_reached :: bool
  uroot_reached :: bool
  end_reached :: bool
  block_data :: "u8 list"
  wobj :: PKG

text \<open>
  A \<^verbatim>\<open>Dirent\<close> at offset \<open>i\<close> of a block: four little-endian 32-bit fields, then the name.
\<close>

definition dirent_ino :: "u8 list \<Rightarrow> nat \<Rightarrow> u32" where
  "dirent_ino dd i = le_word (take 4 (drop i dd))"

definition dirent_type :: "u8 list \<Rightarrow> nat \<Rightarrow> u32" where
  "dirent_type dd i = le_word (take 4 (drop (i + 4) dd))"

definition dirent_namelen :: "u8 list \<Rightarrow> nat \<Rightarrow> u32" where
  "dirent_namelen dd i = le_word (take 4 (drop (i + 8) dd))"

definition dirent_entsize :: "u8 list \<Rightarrow> nat \<Rightarrow> u32" where
  "dirent_entsize dd i = le_word (take 4 (drop (i + 12) dd))"

definition byte_char :: "u8 \<Rightarrow> char" where
  "byte_char b = char_of (unat b)"

text \<open>
  The inode loop \<^verbatim>\<open>for (int p = 0; p < 0x10000; p += 0xA8)\<close>: an \<^verbatim>\<open>Inode\<close> is 0xA8 bytes, and
  the copy of the last one of a full block reads past the 0x10000 bytes of the vector.
\<close>

function Extract_inodes :: "externals \<Rightarrow> u8 list \<Rightarrow> nat \<Rightarrow> Inode list \<Rightarrow> fault + Inode list" where
  "Extract_inodes x dd q nodes =
     (if q < 0x10000 then
        (if length dd < q + 0xA8 then Inl OutOfBounds
         else if Mode (Inode_of x (take 0xA8 (drop q dd))) = 0 then Inr nodes
         else Extract_inodes x dd (q + 0xA8) (nodes @ [Inode_of x (take 0xA8 (drop q dd))]))
      else Inr nodes)"
  by pat_completeness auto
termination
  by (relation "measure (\<lambda>(x, dd, q, nodes). 0x10000 - q)") auto

declare Extract_inodes.simps [simp del]

text \<open>
  The dirent with \<open>ino = 0\<close> that ends the uroot block: the folder of the inode counted so
  far is published.
\<close>

definition uroot_publish :: "walk_state \<Rightarrow> walk_state" where
  "uroot_publish w =
     (let p = wobj w;
          parent = parent_path (extract_path p);
          title_id = map byte_char (pkgTitleID p);
          dest = (if filename parent \<noteq> title_id \<and> \<not> ends_with (filename (extract_path p)) ''-UPDATE''
                  then path_div parent (path_of_name title_id)
                  else extract_path p)
      in w\<lparr>uroot_reached := False,
            wobj := p\<lparr>extractPaths := (extractPaths p)(ndinode_counter w \<mapsto> dest)\<rparr>\<rparr>)"

text \<open>
  \<^verbatim>\<open>for (int i = 0; i < 0x10000; i += ent_size)\<close> in uroot mode. The stride is the
  \<open>entsize\<close> just read, whatever it is; \<open>i\<close> is an \<^verbatim>\<open>int\<close>, the sum wraps.
\<close>

partial_function (option) uroot_loop ::
  "externals \<Rightarrow> u32 \<Rightarrow> walk_state \<Rightarrow> (fault + walk_state) option" where
  "uroot_loop x i w =
     (if sint i < 0x10000 then
        (if sint i < 0 \<or> length (block_data w) < nat (sint i) + sizeof_Dirent x
         then Some (Inl OutOfBounds)
         else if dirent_ino (block_data w) (nat (sint i)) \<noteq> 0
           then uroot_loop x (i + dirent_entsize (block_data w) (nat (sint i)))
                  (w\<lparr>ent_size := dirent_entsize (block_data w) (nat (sint i)),
                     ndinode_counter := ndinode_counter w + 1\<rparr>)
           else Some (Inr (uroot_publish
                             (w\<lparr>ent_size := dirent_entsize (block_data w) (nat (sint i))\<rparr>))))
      else Some (Inr w))"

text \<open>
  The body of the dir-mode loop for a dirent with \<open>ino \<noteq> 0\<close> at offset \<open>j\<close>: a row of the
  file table, its path, and the count that ends the walk.
\<close>

definition dirent_entry :: "externals \<Rightarrow> nat \<Rightarrow> walk_state \<Rightarrow> fault + walk_state" where
  "dirent_entry x j w =
     (let dd = block_data w;
          namelen = dirent_namelen dd j
      in if sint namelen < 0 then Inl LengthError
         else if sizeof_Dirent x < 16 + nat (sint namelen) then Inl OutOfBounds
         else
           let row = \<lparr>name = map byte_char (take (nat (sint namelen)) (drop (j + 16) dd)),
                      inode = dirent_ino dd j, type = dirent_type dd j\<rparr>;
               p = wobj w;
               p1 = p\<lparr>fsTable := fsTable p @ [row]\<rparr>;
               p2 = (if type row = PFS_CURRENT_DIR
                     then p1\<lparr>current_dir := fst (at_key (extractPaths p1) (inode row)),
                             extractPaths := snd (at_key (extractPaths p1) (inode row))\<rparr>
                     else p1);
               dest = path_div (extract_path p2) (path_div (current_dir p2) (path_of_name (name row)));
               p3 = p2\<lparr>extractPaths := (extractPaths p2)(inode row \<mapsto> dest)\<rparr>;
               w1 = w\<lparr>ent_size := dirent_entsize dd j\<rparr>
           in if type row = PFS_FILE \<or> type row = PFS_DIR then
                let p4 = (if type row = PFS_DIR
                          then p3\<lparr>disk := create_directories dest (disk p3)\<rparr> else p3);
                    c = ndinode_counter w1 + 1
                in Inr (w1\<lparr>ndinode_counter := c,
                           end_reached := (if c + 1 = ndinode w1 then True else end_reached w1),
                           wobj := p4\<rparr>)
              else Inr (w1\<lparr>wobj := p3\<rparr>))"

partial_function (option) dirent_loop ::
  "externals \<Rightarrow> u32 \<Rightarrow> walk_state \<Rightarrow> (fault + walk_state) option" where
  "dirent_loop x j w =
     (if sint j < 0x10000 then
        (if sint j < 0 \<or> length (block_data w) < nat (sint j) + sizeof_Dirent x
         then Some (Inl OutOfBounds)
         else if dirent_ino (block_data w) (nat (sint j)) = 0 then Some (Inr w)
         else (case dirent_entry x (nat (sint j)) w of
                 Inl e \<Rightarrow> Some (Inl e)
               | Inr w1 \<Rightarrow> dirent_loop x (j + ent_size w1) w1))
      else Some (Inr w))"


text \<open>
  The dirents that the two loops reach in a block, from offset \<open>i\<close> on: each one that has
  \<open>ino \<noteq> 0\<close> has an \<open>entsize\<close> that is positive as an \<^verbatim>\<open>int\<close>. The chain ends at a dirent with
  \<open>ino = 0\<close>, at an offset beyond 0x10000 or where a \<^verbatim>\<open>Dirent\<close> of \<open>sz\<close> bytes does not fit.
\<close>

function positive_strides :: "nat \<Rightarrow> u8 list \<Rightarrow> nat \<Rightarrow> bool" where
  "positive_strides sz dd i =
     (if i < 0x10000 \<and> i + sz \<le> length dd \<and> dirent_ino dd i \<noteq> 0 then
        (if 0 < sint (dirent_entsize dd i)
         then positive_strides sz dd (i + nat (sint (dirent_entsize dd i)))
         else False)
      else True)"
  by pat_completeness auto
termination
  by (relation "measure (\<lambda>(sz, dd, i). 0x10000 - i)") auto

declare positive_strides.simps [simp del]

text \<open>
  One iteration of the block loop of \<^verbatim>\<open>Extract\<close>, for block \<open>i\<close> of the buffer \<open>pfsc\<close>.
\<close>

definition walk_block ::
  "externals \<Rightarrow> u8 list \<Rightarrow> nat \<Rightarrow> walk_state \<Rightarrow> (fault + walk_state) option" where
  "walk_block x pfsc i w =
     (if \<not> Suc i < length (sectorMap (wobj w)) then Some (Inl OutOfBounds)
      else
        let sectorOffset = sectorMap (wobj w) ! i;
            sectorSize = sectorMap (wobj w) ! Suc i - sectorOffset
        in if length pfsc < unat sectorOffset + unat sectorSize then Some (Inl OutOfBounds)
           else
             let compressedData = take (unat sectorSize) (drop (unat sectorOffset) pfsc);
                 dd = (if sectorSize = 0x10000 then fill (block_data w) compressedData
                       else if sectorSize < 0x10000
                         then DecompressPFSC x compressedData (block_data w)
                       else block_data w)
             in (case (if i = 0 then memcpy_u32 dd 0x30 else Some (ndinode w)) of
                   None \<Rightarrow> Some (Inl OutOfBounds)
                 | Some nd \<Rightarrow>
                     let occupied_blocks =
                           (nd * 0xA8) div 0x10000 + (if (nd * 0xA8) mod 0x10000 \<noteq> 0 then 1 else 0)
                     in (case (if 1 \<le> i \<and> int i \<le> sint occupied_blocks
                               then Extract_inodes x dd 0 (iNodeBuf (wobj w))
                               else Inr (iNodeBuf (wobj w))) of
                           Inl e \<Rightarrow> Some (Inl e)
                         | Inr nodes \<Rightarrow>
                             let w1 = w\<lparr>ndinode := nd, end_reached := False, block_data := dd,
                                        uroot_reached :=
                                          (if map byte_char (take 15 (drop 0x10 dd)) = ''flat_path_table''
                                           then True else uroot_reached w),
                                        wobj := (wobj w)\<lparr>iNodeBuf := nodes\<rparr>\<rparr>
                             in (case (if uroot_reached w1 then uroot_loop x 0 w1 else Some (Inr w1)) of
                                   None \<Rightarrow> None
                                 | Some (Inl e) \<Rightarrow> Some (Inl e)
                                 | Some (Inr w2) \<Rightarrow>
                                     let w3 = w2\<lparr>dinode_reached :=
                                                   (if map byte_char (take 1 (drop 0x10 dd)) = ''.'' \<and>
                                                       map byte_char (take 2 (drop 0x28 dd)) = ''..''
                                                    then True else dinode_reached w2)\<rparr>
                                     in if dinode_reached w3 then dirent_loop x 0 w3
                                        else Some (Inr w3)))))"

function Extract_blocks ::
  "externals \<Rightarrow> u8 list \<Rightarrow> nat \<Rightarrow> nat \<Rightarrow> walk_state \<Rightarrow> (fault + walk_state) option" where
  "Extract_blocks x pfsc num_blocks i w =
     (if i < num_blocks then
        (case walk_block x pfsc i w of
           None \<Rightarrow> None
         | Some (Inl e) \<Rightarrow> Some (Inl e)
         | Some (Inr w') \<Rightarrow>
             if dinode_reached w' \<and> end_reached w' then Some (Inr w')
             else Extract_blocks x pfsc num_blocks (Suc i) w')
      else Some (Inr w))"
  by pat_completeness auto
termination
  by (relation "measure (\<lambda>(x, pfsc, num_blocks, i, w). num_blocks - i)") auto

declare Extract_blocks.simps [simp del]

subsection \<open>\<^verbatim>\<open>PKG::Extract\<close>\<close>

text \<open>
  What the local arrays \<open>key1\<close>, \<open>imgkeydata\<close> and \<open>seed\<close> hold before anything is read
  into them: they are not initialised.
\<close>

record uninitialised =
  key1_init :: "u8 list"
  imgkeydata_init :: "u8 list"
  seed_init :: "u8 list"

text \<open>
  After the entry loop: the seed, the two PFS keys, then the PFS head if
  \<open>length = pfs_cache_size * 2\<close> is not zero, then the walk. The keys are derived before
  \<open>length\<close> is looked at.
\<close>

definition Extract_pfs ::
  "externals \<Rightarrow> IOFile \<Rightarrow> u8 list \<Rightarrow> string \<Rightarrow> PKG \<Rightarrow> (fault + bool \<times> string \<times> PKG) option" where
  "Extract_pfs x f seed0 failreason p =
     (if \<not> fst (Seek (unat (pfs_image_offset (pkgheader p) + 0x370)) f)
      then Some (Inr (False, ''Failed to seek to PFS image offset'', p))
      else
        let r = Read 16 (snd (Seek (unat (pfs_image_offset (pkgheader p) + 0x370)) f));
            seed = fill seed0 (fst r);
            ks = PfsGenCryptoKey x (ekpfsKey p) seed (dataKey p) (tweakKey p);
            p1 = p\<lparr>dataKey := fst ks, tweakKey := snd ks\<rparr>;
            len = pfs_cache_size (pkgheader p) * 2
        in (case (if len \<noteq> 0 then Extract_pfs_head x (snd r) len p1
                  else Some (Inr (0, replicate (unat len) 0, p1))) of
              None \<Rightarrow> None
            | Some (Inl e) \<Rightarrow> Some (Inl e)
            | Some (Inr (num_blocks, pfsc, p2)) \<Rightarrow>
                (case Extract_blocks x pfsc (nat (sint num_blocks)) 0
                        \<lparr>ent_size = 0, ndinode = 0, ndinode_counter = 0, dinode_reached = False,
                         uroot_reached = False, end_reached = False,
                         block_data = replicate 0x10000 0, wobj = p2\<rparr> of
                   None \<Rightarrow> None
                 | Some (Inl e) \<Rightarrow> Some (Inl e)
                 | Some (Inr w) \<Rightarrow> Some (Inr (True, failreason, wobj w)))))"

text \<open>
  The state in which the entry loop starts, once \<^verbatim>\<open>file.Seek(offset)\<close> has succeeded.
\<close>

definition entry_loop_start :: "IOFile \<Rightarrow> uninitialised \<Rightarrow> PKG \<Rightarrow> entry_state" where
  "entry_loop_start f u p =
     \<lparr>pkg_in = snd (Seek (unat (pkg_table_entry_offset (pkgheader p))) f),
      key1 = key1_init u, imgkeydata = imgkeydata_init u, obj = p\<rparr>"

text \<open>
  The result is \<open>None\<close> when \<^verbatim>\<open>Extract\<close> does not return, a fault when it leaves a buffer,
  and otherwise the value returned, \<open>failreason\<close> and the object.
\<close>

definition Extract ::
  "externals \<Rightarrow> pkg_file option \<Rightarrow> fpath \<Rightarrow> fpath \<Rightarrow> string \<Rightarrow> uninitialised \<Rightarrow> PKG \<Rightarrow>
     (fault + bool \<times> string \<times> PKG) option" where
  "Extract x pkg filepath extract failreason u p =
     (let p0 = p\<lparr>extract_path := extract, pkgpath := filepath\<rparr>
      in case pkg of
           None \<Rightarrow> Some (Inr (False, failreason, p0))
         | Some pf \<Rightarrow>
             let f0 = open_read (snd pf);
                 p1 = p0\<lparr>pkgSize := GetSize f0, pkgheader := read_pkgheader pf (pkgheader p0)\<rparr>;
                 f1 = snd (Read 0x1000 f0);
                 h = pkgheader p1
             in if magic h \<noteq> 0x7F434E54 then Some (Inr (False, failreason, p1))
                else if (of_nat (pkgSize p1) :: u64) < pkg_size h
                  then Some (Inr (False, ''PKG file size is different'', p1))
                else if pkg_size h < pkg_content_size h + pkg_content_offset h
                  then Some (Inr (False, ''Content size is bigger than pkg size'', p1))
                else if \<not> fst (Seek (unat (pkg_table_entry_offset h)) f1)
                  then Some (Inr (False, ''Failed to seek to PKG table entry offset'', p1))
                else
                  (case Extract_entries x (unat (pkg_table_entry_count h)) 0
                          (entry_loop_start f1 u p1) of
                     Inl e \<Rightarrow> Some (Inr (False, fst e, snd e))
                   | Inr s \<Rightarrow> Extract_pfs x (pkg_in s) (seed_init u) failreason (obj s)))"


text \<open>
  Two relations between the object before and after a run, to say what a run leaves alone:
  nothing of the PFS is loaded, and every file whose content changed is
  \<^verbatim>\<open>extract_path / "sce_sys" / name\<close> for some name.
\<close>

definition pfs_untouched :: "PKG \<Rightarrow> PKG \<Rightarrow> bool" where
  "pfs_untouched p p' =
     (fsTable p' = fsTable p \<and> iNodeBuf p' = iNodeBuf p \<and> sectorMap p' = sectorMap p \<and>
      extractPaths p' = extractPaths p \<and> pfsc_offset p' = pfsc_offset p)"

definition written_under_sce_sys :: "fpath \<Rightarrow> host \<Rightarrow> host \<Rightarrow> bool" where
  "written_under_sce_sys extract h h' =
     (\<forall>q. files h' q \<noteq> files h q \<longrightarrow>
          (\<exists>nm. q = path_div (path_div extract (path_of ''sce_sys'')) (path_of nm)))"

text \<open>What the entry loop leaves alone, whichever way it ends.\<close>

definition entry_frame :: "PKG \<Rightarrow> PKG \<Rightarrow> bool" where
  "entry_frame p p' =
     (pfs_untouched p p' \<and> written_under_sce_sys (extract_path p) (disk p) (disk p') \<and>
      dataKey p' = dataKey p \<and> tweakKey p' = tweakKey p \<and> extract_path p' = extract_path p \<and>
      pkgheader p' = pkgheader p)"

subsection \<open>\<^verbatim>\<open>PKG::ExtractFiles\<close>\<close>

text \<open>
  The locals that the block loop of \<^verbatim>\<open>ExtractFiles\<close> carries from one iteration to the next,
  with the file being written.
\<close>

record xf_state =
  size_decompressed :: u32
  decompressedData :: "u8 list"
  pfsc_buf :: "u8 list"
  pfs_decrypted :: "u8 list"
  pkgFile :: IOFile
  out_disk :: host

text \<open>
  One iteration, for block \<open>j\<close> of a file written at \<open>inflated\<close>. An index of \<open>sectorMap\<close> is
  the \<^verbatim>\<open>int\<close> sum converted to \<^verbatim>\<open>size_t\<close>; \<open>bsize\<close> is the \<^verbatim>\<open>int\<close> that holds the inode's
  64-bit size.
\<close>

definition ExtractFiles_block ::
  "externals \<Rightarrow> PKG \<Rightarrow> fpath \<Rightarrow> u32 \<Rightarrow> u32 \<Rightarrow> u32 \<Rightarrow> int \<Rightarrow> xf_state \<Rightarrow> fault + xf_state" where
  "ExtractFiles_block x p inflated sector_loc nblocks bsize j s =
     (let k = unat (scast (sector_loc + word_of_int j) :: u64);
          k1 = unat (scast (sector_loc + word_of_int j + 1) :: u64)
      in if \<not> (k < length (sectorMap p) \<and> k1 < length (sectorMap p)) then Inl OutOfBounds
      else
        let sectorOffset = sectorMap p ! k;
            sectorSize = sectorMap p ! k1 - sectorOffset;
            fileOffset = pfs_image_offset (pkgheader p) + pfsc_offset p + sectorOffset;
            currentSector1 = (pfsc_offset p + sectorOffset) div 0x1000;
            sectorOffsetMask = (ucast ((sectorOffset + pfsc_offset p) AND 0xFFFFF000) :: u32);
            previousData = (ucast ((sectorOffset + pfsc_offset p) - scast sectorOffsetMask) :: u32);
            f1 = snd (Seek (unat (fileOffset - scast previousData)) (pkgFile s));
            rd = Read (length (pfsc_buf s)) f1;
            pfsc' = fill (pfsc_buf s) (fst rd);
            dec = decryptPFS x (dataKey p) (tweakKey p) pfsc' (pfs_decrypted s) currentSector1
        in if sint previousData < 0 \<or> nat (sint previousData) + unat sectorSize > length dec
           then Inl OutOfBounds
           else
             let compressedData = take (unat sectorSize) (drop (nat (sint previousData)) dec);
                 dd = (if sectorSize = 0x10000 then fill (decompressedData s) compressedData
                       else if sectorSize < 0x10000
                         then DecompressPFSC x compressedData (decompressedData s)
                       else decompressedData s);
                 sd = size_decompressed s + 0x10000;
                 s' = s\<lparr>size_decompressed := sd, decompressedData := dd, pfsc_buf := pfsc',
                        pfs_decrypted := dec, pkgFile := snd rd\<rparr>
             in if j < sint nblocks - 1
                then Inr (s'\<lparr>out_disk := WriteRaw inflated dd (out_disk s)\<rparr>)
                else
                  let write_size = (ucast ((of_nat (length dd) :: u64) - scast (sd - bsize)) :: u32)
                  in if unat write_size > length dd then Inl OutOfBounds
                     else Inr (s'\<lparr>out_disk :=
                                 WriteRaw inflated (take (unat write_size) dd) (out_disk s)\<rparr>))"

function ExtractFiles_loop ::
  "externals \<Rightarrow> PKG \<Rightarrow> fpath \<Rightarrow> u32 \<Rightarrow> u32 \<Rightarrow> u32 \<Rightarrow> int \<Rightarrow> xf_state \<Rightarrow> fault + xf_state" where
  "ExtractFiles_loop x p inflated sector_loc nblocks bsize j s =
     (if j < sint nblocks then
        (case ExtractFiles_block x p inflated sector_loc nblocks bsize j s of
           Inl e \<Rightarrow> Inl e
         | Inr s' \<Rightarrow> ExtractFiles_loop x p inflated sector_loc nblocks bsize (j + 1) s')
      else Inr s)"
  by pat_completeness auto
termination
  by (relation "measure (\<lambda>(x, p, inflated, sector_loc, nblocks, bsize, j, s). nat (sint nblocks - j))")
    auto

declare ExtractFiles_loop.simps [simp del]

text \<open>
  The branch for a file-table row that is not a file and has an empty name: the first
  entry collected by \<^verbatim>\<open>Open\<close> whose id is the row's inode number is dumped at the output root.
\<close>

definition ExtractFiles_unnamed :: "u8 list \<Rightarrow> u32 \<Rightarrow> PKG \<Rightarrow> PKG" where
  "ExtractFiles_unnamed pkg_bytes inode_number p =
     (let outpath = path_div (extract_path p)
                      (path_of (''entry_0x'' @ hex_string (unat inode_number) @ ''.bin''));
          h1 = create_directories (parent_path outpath) (disk p)
      in case find (\<lambda>entry. entry_id entry = inode_number) (pkgEntries p) of
           None \<Rightarrow> p\<lparr>disk := h1\<rparr>
         | Some entry \<Rightarrow>
             let f1 = snd (Seek (unat (entry_offset entry)) (open_read pkg_bytes));
                 n = unat (entry_size entry);
                 data = fill (replicate n 0) (fst (Read n f1))
             in p\<lparr>disk := WriteRaw outpath data (open_write outpath h1)\<rparr>)"

text \<open>
  \<open>pkg_bytes\<close> is the content of the file at \<open>pkgpath\<close> (a file that cannot be opened
  delivers nothing, as an empty one), \<open>index\<close> the \<^verbatim>\<open>int\<close> argument.
\<close>

definition ExtractFiles :: "externals \<Rightarrow> u8 list \<Rightarrow> u32 \<Rightarrow> PKG \<Rightarrow> fault + PKG" where
  "ExtractFiles x pkg_bytes index p =
     (let i = unat (scast index :: u64)
      in if \<not> i < length (fsTable p) then Inl OutOfBounds
      else
        let inode_number = inode (fsTable p ! i);
            inode_type = type (fsTable p ! i);
            inode_name = name (fsTable p ! i)
        in if inode_type = PFS_FILE then
             let path = fst (at_key (extractPaths p) inode_number);
                 paths = snd (at_key (extractPaths p) inode_number);
                 h1 = create_directories (parent_path path) (disk p);
                 n = unat (scast inode_number :: u64)
             in if \<not> n < length (iNodeBuf p) then Inl OutOfBounds
                else
                  let sector_loc = loc (iNodeBuf p ! n);
                      nblocks = Blocks (iNodeBuf p ! n);
                      bsize = (ucast (Size (iNodeBuf p ! n)) :: u32);
                      s0 = \<lparr>size_decompressed = 0, decompressedData = replicate 0x10000 0,
                            pfsc_buf = replicate 0x11000 0, pfs_decrypted = replicate 0x11000 0,
                            pkgFile = open_read pkg_bytes, out_disk = open_write path h1\<rparr>
                  in case ExtractFiles_loop x p path sector_loc nblocks bsize 0 s0 of
                       Inl e \<Rightarrow> Inl e
                     | Inr s \<Rightarrow> Inr (p\<lparr>extractPaths := paths, disk := out_disk s\<rparr>)
           else if inode_name = [] then Inr (ExtractFiles_unnamed pkg_bytes inode_number p)
           else Inr p)"

text \<open>
  Block \<open>j\<close> of a file can be read without leaving \<open>sectorMap\<close> or the 0x11000-byte
  buffer: the two places where \<open>ExtractFiles_block\<close> can fault before it writes.
\<close>

definition block_in_range :: "PKG \<Rightarrow> u32 \<Rightarrow> int \<Rightarrow> bool" where
  "block_in_range p sector_loc j =
     (let k = unat (scast (sector_loc + word_of_int j) :: u64);
          k1 = unat (scast (sector_loc + word_of_int j + 1) :: u64)
      in k < length (sectorMap p) \<and> k1 < length (sectorMap p) \<and>
         (let sectorOffset = sectorMap p ! k;
              sectorSize = sectorMap p ! k1 - sectorOffset;
              sectorOffsetMask = (ucast ((sectorOffset + pfsc_offset p) AND 0xFFFFF000) :: u32);
              previousData = (ucast ((sectorOffset + pfsc_offset p) - scast sectorOffsetMask) :: u32)
          in 0 \<le> sint previousData \<and> nat (sint previousData) + unat sectorSize \<le> 0x11000))"

subsection \<open>Concrete inputs\<close>

text \<open>
  To run the model on a concrete package the parameters need values. In \<open>plain_externals\<close>
  the entry names are those that \<^verbatim>\<open>HOWWORKS.md\<close> documents, and every cryptographic
  primitive and zlib return (a prefix of) their input. It is used in closed examples only.
  \<open>fresh_PKG\<close> is an object with empty containers and zeroed keys.
\<close>

definition plain_externals :: externals where
  "plain_externals =
     \<lparr>GetEntryNameByType = (\<lambda>i. if i = 0x10 then ''entry_keys'' else if i = 0x20 then ''image_key''
                                else if i = 0x200 then ''entry_names''
                                else if i = 0x1000 then ''param.sfo'' else []),
      flagNames = [],
      isFlagSet = (\<lambda>flags flag. flags AND flag = flag),
      sha256 = (\<lambda>m. take 32 m),
      aes128_cbc_decrypt = (\<lambda>k iv c. c),
      rsa2048_decrypt = (\<lambda>k c. take 32 c),
      hmac_sha256 = (\<lambda>k m. take 32 (m @ k)),
      aes128_xts_decrypt = (\<lambda>d t sector c. c),
      zlib_inflate = (\<lambda>c n. take n c),
      sizeof_PFSCHdr = 48,
      PFSCHdr_of = (\<lambda>b. \<lparr>block_sz2 = le_word (take 8 (drop 16 b)),
                            block_offsets = le_word (take 8 (drop 24 b)),
                            data_length = le_word (take 8 (drop 40 b))\<rparr>),
      Inode_of = (\<lambda>b. \<lparr>Mode = le_word (take 2 b), Size = le_word (take 8 (drop 8 b)),
                          Blocks = le_word (take 4 (drop 96 b)),
                          loc = le_word (take 4 (drop 100 b))\<rparr>),
      sizeof_Dirent = 528\<rparr>"

definition fresh_PKG :: PKG where
  "fresh_PKG =
     \<lparr>pkgSize = 0,
      pkgheader = \<lparr>magic = 0, pkg_content_flags = 0, pkg_size = 0, pkg_content_offset = 0,
                   pkg_content_size = 0, pkg_table_entry_offset = 0, pkg_table_entry_count = 0,
                   pfs_image_offset = 0, pfs_cache_size = 0\<rparr>,
      pkgFlags = [], pkgTitleID = replicate 9 0, sfo = [], pkgEntries = [],
      extract_path = empty_path, pkgpath = empty_path, current_dir = empty_path,
      extractPaths = Map.empty, fsTable = [], iNodeBuf = [], sectorMap = [], pfsc_offset = 0,
      dk3 = replicate 32 0, ivKey = replicate 32 0, imgKey = replicate 256 0,
      ekpfsKey = replicate 32 0, dataKey = replicate 16 0, tweakKey = replicate 16 0,
      decNp = [], disk = \<lparr>files = Map.empty, dirs = []\<rparr>\<rparr>"


text \<open>
  A \<^verbatim>\<open>PKG\<close> whose file table has one file of two uncompressed blocks at \<^verbatim>\<open>out/eboot.bin\<close>,
  with the inode's size and block count given.
\<close>

definition one_file_PKG :: "u64 \<Rightarrow> u32 \<Rightarrow> PKG" where
  "one_file_PKG sz nb =
     fresh_PKG\<lparr>fsTable := [\<lparr>name = ''eboot.bin'', inode = 0, type = PFS_FILE\<rparr>],
                iNodeBuf := [\<lparr>Mode = 0x8000, Size = sz, Blocks = nb, loc = 0\<rparr>],
                sectorMap := [0, 0x10000, 0x20000],
                extractPaths := [0 \<mapsto> path_div (path_of ''out'') (path_of ''eboot.bin'')]\<rparr>"


text \<open>
  A directory block: the dirents \<^verbatim>\<open>.\<close> (inode 2, 24 bytes), \<^verbatim>\<open>..\<close> (inode 1, 24 bytes) and
  the file \<^verbatim>\<open>eboot.bin\<close> (inode 3, 32 bytes), then zeros up to 0x10000 bytes.
\<close>

definition dir_block :: "u8 list" where
  "dir_block =
     [2, 0, 0, 0, 4, 0, 0, 0, 1, 0, 0, 0, 24, 0, 0, 0, 0x2E, 0, 0, 0, 0, 0, 0, 0] @
     [1, 0, 0, 0, 5, 0, 0, 0, 2, 0, 0, 0, 24, 0, 0, 0, 0x2E, 0x2E, 0, 0, 0, 0, 0, 0] @
     [3, 0, 0, 0, 2, 0, 0, 0, 9, 0, 0, 0, 32, 0, 0, 0,
      0x65, 0x62, 0x6F, 0x6F, 0x74, 0x2E, 0x62, 0x69, 0x6E, 0, 0, 0, 0, 0, 0, 0] @
     replicate 65456 0"

text \<open>The locals of the block loop of \<^verbatim>\<open>Extract\<close> as they are at a block with content \<open>dd\<close>.\<close>

definition walk_of :: "u8 list \<Rightarrow> walk_state" where
  "walk_of dd =
     \<lparr>ent_size = 0, ndinode = 0, ndinode_counter = 0, dinode_reached = False,
      uroot_reached = False, end_reached = False, block_data = dd, wobj = fresh_PKG\<rparr>"


text \<open>
  The locals of \<^verbatim>\<open>Extract\<close> zeroed, a header whose entry table starts right after the
  0x1000 bytes of the header, and the state in which the entry loop starts on a file with
  such a header, extracting to \<^verbatim>\<open>out\<close>.
\<close>

definition zero_locals :: uninitialised where
  "zero_locals =
     \<lparr>key1_init = replicate (7 * 256) 0, imgkeydata_init = replicate 256 0,
      seed_init = replicate 16 0\<rparr>"

definition table_header :: "u32 \<Rightarrow> PKGHeader" where
  "table_header n =
     (pkgheader fresh_PKG)\<lparr>magic := 0x7F434E54, pkg_table_entry_offset := 0x1000,
                             pkg_table_entry_count := n\<rparr>"

definition loop_start :: "u8 list \<Rightarrow> u32 \<Rightarrow> entry_state" where
  "loop_start bytes n =
     entry_loop_start (open_read bytes) zero_locals
       (fresh_PKG\<lparr>pkgheader := table_header n, extract_path := path_of ''out''\<rparr>)"

text \<open>
  A package with one entry of id 0xDEADBEEF, which has no name; its payload is the 17 bytes
  after the table.
\<close>

definition deadbeef_slot :: "u8 list" where
  "deadbeef_slot =
     [0xDE, 0xAD, 0xBE, 0xEF] @ replicate 12 0 @ [0, 0, 0x10, 0x20] @ [0, 0, 0, 0x11] @
     replicate 8 0"

definition unknown_entry_pkg :: "u8 list" where
  "unknown_entry_pkg =
     [0x7F, 0x43, 0x4E, 0x54] @ replicate 4092 0 @ deadbeef_slot @ replicate 17 0x41"

text \<open>
  A package with two entries after the header: the slots \<open>first\<close> and \<open>second\<close>, then the
  2048 bytes of the entry 0x10 (digests and keys) and the 256 bytes of the entry 0x20. The
  slot of the entry 0x20 has its eight reserved bytes set to 0xFF.
\<close>

definition entry_keys_slot :: "u8 list" where
  "entry_keys_slot =
     [0, 0, 0, 0x10] @ replicate 12 0 @ [0, 0, 0x10, 0x40] @ [0, 0, 8, 0] @ replicate 8 0"

definition image_key_slot :: "u8 list" where
  "image_key_slot =
     [0, 0, 0, 0x20] @ replicate 12 0 @ [0, 0, 0x18, 0x40] @ [0, 0, 1, 0] @ replicate 8 0xFF"

definition keys_pkg :: "u8 list \<Rightarrow> u8 list \<Rightarrow> u8 list" where
  "keys_pkg first second =
     [0x7F, 0x43, 0x4E, 0x54] @ replicate 4092 0 @ first @ second @
     replicate 2048 0x33 @ replicate 256 0x41"

section \<open>Properties\<close>

subsection \<open>Buffers and machine arithmetic\<close>


lemma length_fill [simp]: "length (fill buf new) = length buf"
  by (simp add: fill_def)

lemma length_DecompressPFSC [simp]: "length (DecompressPFSC x c d) = length d"
  by (simp add: DecompressPFSC_def)

lemma length_decryptPFS [simp]: "length (decryptPFS x dk tk src dst sector) = length dst"
  by (simp add: decryptPFS_def)

lemma files_WriteRaw_same:
  "comps q \<noteq> [] \<Longrightarrow> files h q = Some bs \<Longrightarrow> files (WriteRaw q w h) q = Some (bs @ w)"
  by (simp add: WriteRaw_def)

lemma ucast_wi_64_32: "(ucast (word_of_int k :: u64) :: u32) = word_of_int k"
  by (rule ucast_down_wi) (simp add: is_down)

lemma ucast_diff_scast:
  "(ucast ((a :: u64) - scast (d :: u32)) :: u32) = ucast a - d"
proof -
  have "a - scast d = word_of_int (uint a) - word_of_int (sint d)"
    by (simp only: word_of_int_uint of_int_sint)
  also have "\<dots> = word_of_int (uint a - sint d)"
    by (simp only: of_int_diff)
  finally have "(ucast (a - scast d) :: u32) = word_of_int (uint a - sint d)"
    by (simp only: ucast_wi_64_32)
  also have "\<dots> = word_of_int (uint a) - word_of_int (sint d)"
    by (simp only: of_int_diff)
  also have "word_of_int (uint a) = (ucast a :: u32)"
    by (simp only: ucast_eq)
  also have "word_of_int (sint d) = d"
    by (simp only: of_int_sint scast_id)
  finally show ?thesis .
qed

lemma ucast_Size: "(ucast (S :: u64) :: u32) = word_of_int (sint S)"
proof -
  have "(ucast S :: u32) = ucast (word_of_int (sint S) :: u64)"
    by (simp only: of_int_sint scast_id)
  then show ?thesis by (simp only: ucast_wi_64_32)
qed

lemma unat_wi32: "0 \<le> k \<Longrightarrow> k < 4294967296 \<Longrightarrow> unat (word_of_int k :: u32) = nat k"
  by (simp add: unat_eq_nat_uint uint_word_of_int)

lemma write_size_tail:
  fixes S :: u64 and n j :: int
  assumes "j = n - 1" "(n - 1) * 65536 < sint S" "sint S \<le> n * 65536"
  shows "unat (ucast ((of_nat 65536 :: u64) - scast ((word_of_int ((j + 1) * 65536) :: u32) - ucast S)) :: u32)
         = nat (sint S - j * 65536)"
proof -
  have c: "(ucast (of_nat 65536 :: u64) :: u32) = word_of_int 65536"
    by simp
  have "(ucast ((of_nat 65536 :: u64) - scast ((word_of_int ((j + 1) * 65536) :: u32) - ucast S)) :: u32)
        = ucast (of_nat 65536 :: u64) - ((word_of_int ((j + 1) * 65536) :: u32) - ucast S)"
    by (rule ucast_diff_scast)
  also have "\<dots> = word_of_int 65536 - (word_of_int ((j + 1) * 65536) - ucast S)"
    by (simp only: c)
  also have "\<dots> = word_of_int 65536 - (word_of_int ((j + 1) * 65536) - word_of_int (sint S))"
    by (simp only: ucast_Size)
  also have "\<dots> = word_of_int (65536 - ((j + 1) * 65536 - sint S))"
    by (simp only: of_int_diff)
  also have "65536 - ((j + 1) * 65536 - sint S) = sint S - j * 65536"
    by (simp add: algebra_simps)
  finally have e: "(ucast ((of_nat 65536 :: u64) - scast ((word_of_int ((j + 1) * 65536) :: u32) - ucast S)) :: u32)
        = word_of_int (sint S - j * 65536)" .
  have "0 \<le> sint S - j * 65536" "sint S - j * 65536 < 4294967296"
    using assms by simp_all
  then show ?thesis unfolding e by (rule unat_wi32)
qed

subsection \<open>\<^verbatim>\<open>ExtractFiles\<close>: the length of an extracted file\<close>

text \<open>
  One iteration: every block but the last appends the whole 0x10000-byte buffer, the last
  one appends \<open>size - j * 0x10000\<close> bytes.
\<close>

lemma ExtractFiles_block_step:
  fixes S :: u64 and nblocks :: u32
  assumes len: "length (decompressedData s) = 65536" "length (pfs_decrypted s) = 69632"
    and sd: "size_decompressed s = word_of_int (j * 65536)"
    and rng: "block_in_range p sector_loc j"
    and j: "j < sint nblocks"
    and sz: "(sint nblocks - 1) * 65536 < sint S" "sint S \<le> sint nblocks * 65536"
    and out: "comps inflated \<noteq> []" "files (out_disk s) inflated = Some bs"
  shows "\<exists>s' w. ExtractFiles_block x p inflated sector_loc nblocks (ucast S) j s = Inr s' \<and>
           length (decompressedData s') = 65536 \<and> length (pfs_decrypted s') = 69632 \<and>
           size_decompressed s' = word_of_int ((j + 1) * 65536) \<and>
           files (out_disk s') inflated = Some (bs @ w) \<and>
           int (length w) = (if j < sint nblocks - 1 then 65536 else sint S - j * 65536)"
proof (cases "j < sint nblocks - 1")
  case True
  then show ?thesis
    using len sd rng out
    by (simp add: ExtractFiles_block_def block_in_range_def Let_def files_WriteRaw_same
        algebra_simps)
next
  case False
  with j have jn: "j = sint nblocks - 1" by simp
  have ws: "unat (ucast ((of_nat 65536 :: u64) - scast ((word_of_int ((j + 1) * 65536) :: u32) - ucast S)) :: u32)
         = nat (sint S - j * 65536)"
    using jn sz by (rule write_size_tail)
  have sd': "size_decompressed s + 65536 = word_of_int ((j + 1) * 65536)"
    using sd by (simp add: algebra_simps)
  have le: "nat (sint S - j * 65536) \<le> 65536" "0 \<le> sint S - j * 65536"
    using jn sz by simp_all
  have ws': "uint (ucast ((of_nat 65536 :: u64) - scast ((word_of_int ((j + 1) * 65536) :: u32) - ucast S)) :: u32)
         = sint S - j * 65536"
  proof -
    let ?X = "ucast ((of_nat 65536 :: u64) - scast ((word_of_int ((j + 1) * 65536) :: u32) - ucast S)) :: u32"
    have "uint ?X = int (unat ?X)" by simp
    also have "\<dots> = int (nat (sint S - j * 65536))" by (simp only: ws)
    also have "\<dots> = sint S - j * 65536" using le(2) by simp
    finally show ?thesis .
  qed
  show ?thesis
    using False len rng out le ws ws' sd'
    by (simp add: ExtractFiles_block_def block_in_range_def Let_def files_WriteRaw_same)
qed

lemma ExtractFiles_loop_length:
  fixes S :: u64 and nblocks :: u32
  assumes "bsize = ucast S"
    and "length (decompressedData s) = 65536" "length (pfs_decrypted s) = 69632"
    and "size_decompressed s = word_of_int (j * 65536)"
    and "\<forall>i. j \<le> i \<and> i < sint nblocks \<longrightarrow> block_in_range p sector_loc i"
    and "(sint nblocks - 1) * 65536 < sint S" "sint S \<le> sint nblocks * 65536"
    and "comps inflated \<noteq> []"
    and "files (out_disk s) inflated = Some bs"
  shows "\<exists>s' w. ExtractFiles_loop x p inflated sector_loc nblocks bsize j s = Inr s' \<and>
           files (out_disk s') inflated = Some (bs @ w) \<and>
           int (length w) = (if j < sint nblocks then sint S - j * 65536 else 0)"
  using assms
proof (induction x p inflated sector_loc nblocks bsize j s arbitrary: bs
    rule: ExtractFiles_loop.induct)
  case (1 x p inflated sector_loc nblocks bsize j s)
  show ?case
  proof (cases "j < sint nblocks")
    case False
    then show ?thesis
      using "1.prems" by (simp add: ExtractFiles_loop.simps)
  next
    case True
    have rng: "block_in_range p sector_loc j"
      using "1.prems"(5) True by simp
    obtain s' w where
      blk: "ExtractFiles_block x p inflated sector_loc nblocks (ucast S) j s = Inr s'"
      and inv: "length (decompressedData s') = 65536" "length (pfs_decrypted s') = 69632"
        "size_decompressed s' = word_of_int ((j + 1) * 65536)"
      and out: "files (out_disk s') inflated = Some (bs @ w)"
      and lw: "int (length w) = (if j < sint nblocks - 1 then 65536 else sint S - j * 65536)"
      using ExtractFiles_block_step [where x = x and inflated = inflated,
          OF "1.prems"(2,3,4) rng True "1.prems"(6,7,8,9)]
      by blast
    have rng': "\<forall>i. j + 1 \<le> i \<and> i < sint nblocks \<longrightarrow> block_in_range p sector_loc i"
      using "1.prems"(5) by simp
    obtain s'' w' where
      lp: "ExtractFiles_loop x p inflated sector_loc nblocks bsize (j + 1) s' = Inr s''"
      and out': "files (out_disk s'') inflated = Some ((bs @ w) @ w')"
      and lw': "int (length w') = (if j + 1 < sint nblocks then sint S - (j + 1) * 65536 else 0)"
      using "1.IH" [OF True _ "1.prems"(1) inv rng' "1.prems"(6,7,8) out] blk "1.prems"(1)
      by blast
    have "ExtractFiles_loop x p inflated sector_loc nblocks bsize j s = Inr s''"
      using True blk lp "1.prems"(1) by (subst ExtractFiles_loop.simps) simp
    moreover have "files (out_disk s'') inflated = Some (bs @ (w @ w'))"
      using out' by simp
    moreover have "int (length (w @ w')) = (if j < sint nblocks then sint S - j * 65536 else 0)"
      using True lw lw' by (auto simp: algebra_simps)
    ultimately show ?thesis by blast
  qed
qed

lemma sint_eq_uint_32: "uint (w :: u32) < 2147483648 \<Longrightarrow> sint w = uint w"
proof -
  assume "uint w < 2147483648"
  moreover have "- 2147483648 \<le> uint w"
    using uint_ge_0 [of w] by linarith
  ultimately have "signed_take_bit 31 (uint w) = uint w"
    by (intro signed_take_bit_int_eq_self) simp_all
  then show ?thesis by (simp add: sint_uint)
qed

text \<open>
  Claim C2, as amended. For a file-table row of type \<^verbatim>\<open>PFS_FILE\<close> whose inode has a path
  in \<open>extractPaths\<close> (a path with a file name, so that the output file opens), with
  \<open>(blocks - 1) * 0x10000 < size \<le> blocks * 0x10000\<close>, a block count below \<open>2^31\<close> (the code
  holds it in an \<^verbatim>\<open>int\<close>) and a size that is not negative, and whose blocks can be read
  without a fault, \<^verbatim>\<open>ExtractFiles\<close> returns and the file it has written at that path is
  exactly \<open>size\<close> bytes long: full 0x10000-byte blocks, then the tail, never rounded up to
  64 KiB.
\<close>

theorem ExtractFiles_length_is_inode_size:
  fixes p :: PKG and index :: u32
  assumes i: "i = unat (scast index :: u64)" "i < length (fsTable p)"
    and ty: "type (fsTable p ! i) = PFS_FILE"
    and path: "extractPaths p (inode (fsTable p ! i)) = Some path" "comps path \<noteq> []"
    and n: "n = unat (scast (inode (fsTable p ! i)) :: u64)" "n < length (iNodeBuf p)"
    and node: "node = iNodeBuf p ! n"
    and nb: "uint (Blocks node) < 2147483648"
    and sz: "(uint (Blocks node) - 1) * 65536 < sint (Size node)"
      "sint (Size node) \<le> uint (Blocks node) * 65536"
      "0 \<le> sint (Size node)"
    and rng: "\<forall>j. 0 \<le> j \<and> j < uint (Blocks node) \<longrightarrow> block_in_range p (loc node) j"
  shows "\<exists>p' bs. ExtractFiles x pkg_bytes index p = Inr p' \<and>
           files (disk p') path = Some bs \<and> int (length bs) = sint (Size node)"
proof -
  let ?h = "open_write path (create_directories (parent_path path) (disk p))"
  let ?s0 = "\<lparr>size_decompressed = 0, decompressedData = replicate 65536 0,
              pfsc_buf = replicate 69632 0, pfs_decrypted = replicate 69632 0,
              pkgFile = open_read pkg_bytes, out_disk = ?h\<rparr>"
  have ak: "at_key (extractPaths p) (inode (fsTable p ! i)) = (path, extractPaths p)"
    using path(1) by (simp add: at_key_def)
  have su: "sint (Blocks node) = uint (Blocks node)"
    using nb by (rule sint_eq_uint_32)
  have "\<exists>s' w. ExtractFiles_loop x p path (loc node) (Blocks node) (ucast (Size node)) 0 ?s0 = Inr s' \<and>
           files (out_disk s') path = Some ([] @ w) \<and>
           int (length w) = (if 0 < sint (Blocks node) then sint (Size node) - 0 * 65536 else 0)"
    using sz rng path(2) by (intro ExtractFiles_loop_length) (simp_all add: su open_write_def)
  then obtain s' w where
    lp: "ExtractFiles_loop x p path (loc node) (Blocks node) (ucast (Size node)) 0 ?s0 = Inr s'"
    and out: "files (out_disk s') path = Some w"
    and lw: "int (length w) = (if 0 < sint (Blocks node) then sint (Size node) else 0)"
    by auto
  have "int (length w) = sint (Size node)"
    using lw sz by (auto simp: su)
  moreover have "ExtractFiles x pkg_bytes index p =
      Inr (p\<lparr>extractPaths := extractPaths p, disk := out_disk s'\<rparr>)"
    using i ty n node lp ak by (simp add: ExtractFiles_def Let_def)
  ultimately show ?thesis using out by simp
qed

text \<open>
  A file of 0x10005 bytes in two blocks, at \<^verbatim>\<open>out/eboot.bin\<close>: a full block and five bytes
  are written.
\<close>

lemma one_file_PKG_fields:
  "fsTable (one_file_PKG sz nb) = [\<lparr>name = ''eboot.bin'', inode = 0, type = PFS_FILE\<rparr>]"
  "iNodeBuf (one_file_PKG sz nb) = [\<lparr>Mode = 0x8000, Size = sz, Blocks = nb, loc = 0\<rparr>]"
  "sectorMap (one_file_PKG sz nb) = [0, 0x10000, 0x20000]"
  "extractPaths (one_file_PKG sz nb) 0 = Some \<lparr>is_abs = False, comps = [''out'', ''eboot.bin'']\<rparr>"
  "pfsc_offset (one_file_PKG sz nb) = 0"
  "files (disk (one_file_PKG sz nb)) q = None"
  by (simp_all add: one_file_PKG_def fresh_PKG_def path_div_def path_of_def)

theorem ExtractFiles_length_is_inode_size_witness:
  "(uint (2 :: u32) - 1) * 65536 < sint (0x10005 :: u64) \<and>
   sint (0x10005 :: u64) \<le> uint (2 :: u32) * 65536 \<and>
   extractPaths (one_file_PKG 0x10005 2) (inode (fsTable (one_file_PKG 0x10005 2) ! 0)) =
     Some \<lparr>is_abs = False, comps = [''out'', ''eboot.bin'']\<rparr> \<and>
   (\<exists>p' bs. ExtractFiles plain_externals (replicate 0x20000 0x41) 0 (one_file_PKG 0x10005 2) = Inr p' \<and>
      files (disk p') \<lparr>is_abs = False, comps = [''out'', ''eboot.bin'']\<rparr> = Some bs \<and>
      int (length bs) = 0x10005)"
proof -
  let ?p = "one_file_PKG 0x10005 2"
  note f = one_file_PKG_fields
  have rng: "\<forall>j. 0 \<le> j \<and> j < uint (Blocks (iNodeBuf ?p ! 0)) \<longrightarrow>
               block_in_range ?p (loc (iNodeBuf ?p ! 0)) j"
  proof (intro allI impI)
    fix j :: int
    assume "0 \<le> j \<and> j < uint (Blocks (iNodeBuf ?p ! 0))"
    then have "j = 0 \<or> j = 1" by (auto simp: f)
    then show "block_in_range ?p (loc (iNodeBuf ?p ! 0)) j"
      by (auto simp: block_in_range_def f)
  qed
  have "\<exists>p' bs. ExtractFiles plain_externals (replicate 0x20000 0x41) 0 ?p = Inr p' \<and>
          files (disk p') \<lparr>is_abs = False, comps = [''out'', ''eboot.bin'']\<rparr> = Some bs \<and>
          int (length bs) = sint (Size (iNodeBuf ?p ! 0))"
    using rng
    by (intro ExtractFiles_length_is_inode_size [where i = 0 and n = 0])
      (simp_all add: f)
  then show ?thesis
    by (simp add: f)
qed

text \<open>
  Claim C2 as stated fails for a block count of \<open>2^31\<close> with a size of \<open>2^47\<close> bytes: the
  bounds of the claim hold, \<^verbatim>\<open>int nblocks\<close> is negative, the loop does not run and the file
  written at \<^verbatim>\<open>out/eboot.bin\<close> is empty.
\<close>

theorem ExtractFiles_block_count_counterexample:
  "(uint (0x80000000 :: u32) - 1) * 65536 < sint (0x800000000000 :: u64) \<and>
   sint (0x800000000000 :: u64) \<le> uint (0x80000000 :: u32) * 65536 \<and>
   (\<exists>p'. ExtractFiles plain_externals (replicate 0x20000 0x41) 0
            (one_file_PKG 0x800000000000 0x80000000) = Inr p' \<and>
      files (disk p') \<lparr>is_abs = False, comps = [''out'', ''eboot.bin'']\<rparr> = Some [])"
  by (simp add: ExtractFiles_def one_file_PKG_fields at_key_def Let_def PFS_FILE_def
      ExtractFiles_loop.simps open_write_def create_directories_def)


subsection \<open>\<^verbatim>\<open>Open\<close> on a file without the magic\<close>

text \<open>
  Claim C7. For every file of at least four bytes whose first four bytes are not the
  big-endian magic 0x7F434E54, \<^verbatim>\<open>Open\<close> returns false. The claim also wants \<open>failreason\<close> set to a message about the
  magic; the code only logs one, and \<open>failreason\<close> comes back as the caller passed it, while
  the seek failures of the same function assign it.
\<close>

lemma length_be_bytes [simp]: "length (be_bytes w) = 4"
  by (simp add: be_bytes_def)

lemma magic_read_pkgheader:
  "4 \<le> length (snd pf) \<Longrightarrow> magic (read_pkgheader pf old) = be_word (take 4 (snd pf))"
  by (simp add: read_pkgheader_def fill_def)

lemma read_pkgheader_fields [simp]:
  "pkg_size (read_pkgheader pf old) = pkg_size (fst pf)"
  "pkg_content_size (read_pkgheader pf old) = pkg_content_size (fst pf)"
  "pkg_content_offset (read_pkgheader pf old) = pkg_content_offset (fst pf)"
  "pkg_content_flags (read_pkgheader pf old) = pkg_content_flags (fst pf)"
  "pkg_table_entry_offset (read_pkgheader pf old) = pkg_table_entry_offset (fst pf)"
  "pkg_table_entry_count (read_pkgheader pf old) = pkg_table_entry_count (fst pf)"
  "pfs_image_offset (read_pkgheader pf old) = pfs_image_offset (fst pf)"
  "pfs_cache_size (read_pkgheader pf old) = pfs_cache_size (fst pf)"
  by (simp_all add: read_pkgheader_def)

theorem Open_bad_magic_leaves_failreason:
  assumes "4 \<le> length bytes"
    and "be_word (take 4 bytes) \<noteq> (0x7F434E54 :: u32)"
  shows "Open x (Some (hdr, bytes)) failreason p =
           (False, failreason,
            p\<lparr>pkgSize := length bytes, pkgheader := hdr\<lparr>magic := be_word (take 4 bytes)\<rparr>\<rparr>)"
  using assms
  by (simp add: Open_def read_pkgheader_def Let_def GetSize_def open_read_def fill_def)

text \<open>A 4 KiB file of zeros, opened with an empty \<open>failreason\<close>.\<close>

lemma le_word_zeros: "(le_word (replicate n 0) :: 'a::len word) = 0"
  by (induction n) simp_all

lemma be_word_zeros: "(be_word (replicate n 0) :: 'a::len word) = 0"
  by (simp add: be_word_def le_word_zeros)

theorem Open_bad_magic_leaves_failreason_witness:
  "4 \<le> length (replicate 4096 (0 :: u8)) \<and>
   be_word (take 4 (replicate 4096 0)) \<noteq> (0x7F434E54 :: u32) \<and>
   fst (Open plain_externals (Some (pkgheader fresh_PKG, replicate 4096 0)) [] fresh_PKG) = False \<and>
   fst (snd (Open plain_externals (Some (pkgheader fresh_PKG, replicate 4096 0)) [] fresh_PKG)) = []"
proof -
  have m: "be_word (take 4 (replicate 4096 0)) \<noteq> (0x7F434E54 :: u32)"
    by (simp add: be_word_zeros)
  have l: "4 \<le> length (replicate 4096 (0 :: u8))"
    by simp
  show ?thesis
    using m Open_bad_magic_leaves_failreason [OF l m, of plain_externals "pkgheader fresh_PKG" "[]" fresh_PKG]
    by simp
qed

subsection \<open>A PFS head without the PFSC magic\<close>

text \<open>
  Without the magic at any aligned position the scan ends (for a head of at most
  0xFFFF0000 bytes, where the loop variable cannot wrap): on a read past the end or with the
  value \<open>-1\<close>.
\<close>

lemma GetPFSCOffset_loop_absent:
  assumes "length img \<le> 0xFFFF0000"
    and "\<forall>k. memcpy_u32 img (unat i + k * 0x10000) \<noteq> Some PfscMagic"
  shows "GetPFSCOffset_loop img i = Some (Inl OutOfBounds) \<or>
         GetPFSCOffset_loop img i = Some (Inr (- 1))"
  using assms
proof (induction "length img - unat i" arbitrary: i rule: less_induct)
  case less
  show ?case
  proof (cases "unat i < length img")
    case False
    then show ?thesis by (subst (1 2) GetPFSCOffset_loop.simps) simp
  next
    case True
    show ?thesis
    proof (cases "memcpy_u32 img (unat i)")
      case None
      with True show ?thesis by (subst (1 2) GetPFSCOffset_loop.simps) simp
    next
      case (Some v)
      have nm: "v \<noteq> PfscMagic"
        using less.prems(2) [rule_format, of 0] Some by auto
      have ua: "unat (i + 0x10000) = unat i + 0x10000"
      proof -
        have "unat i + unat (0x10000 :: u32) < 2 ^ LENGTH(32)"
          using True less.prems(1) by simp
        then show ?thesis
          by (simp add: unat_add_lem [THEN iffD1])
      qed
      have step: "\<forall>k. memcpy_u32 img (unat (i + 0x10000) + k * 0x10000) \<noteq> Some PfscMagic"
      proof
        fix k
        show "memcpy_u32 img (unat (i + 0x10000) + k * 0x10000) \<noteq> Some PfscMagic"
          using less.prems(2) [rule_format, of "Suc k"] by (simp add: ua add.assoc)
      qed
      have "GetPFSCOffset_loop img (i + 0x10000) = Some (Inl OutOfBounds) \<or>
            GetPFSCOffset_loop img (i + 0x10000) = Some (Inr (- 1))"
        using True by (intro less.hyps less.prems(1) step) (simp add: ua)
      moreover have "GetPFSCOffset_loop img i = GetPFSCOffset_loop img (i + 0x10000)"
        using True Some nm by (subst GetPFSCOffset_loop.simps) simp
      ultimately show ?thesis by simp
    qed
  qed
qed

lemma length_decrypt_pfs_head [simp]: "length (decrypt_pfs_head x f len p) = unat len"
  by (simp add: decrypt_pfs_head_def Let_def)

text \<open>
  Claim C4. When no 0x10000-aligned position at or after 0x20000 of the decrypted head
  holds the PFSC magic, \<^verbatim>\<open>Extract\<close> should fail with a format error. It does not:
  \<^verbatim>\<open>GetPFSCOffset\<close> returns \<open>-1\<close>, \<^verbatim>\<open>Extract\<close> never compares the result with it, and the
  \<^verbatim>\<open>memcpy\<close> that follows starts 0xFFFFFFFF bytes into the head, outside the buffer.
\<close>

theorem Extract_pfs_head_without_magic:
  assumes "unat len \<le> 0xFFFF0000"
    and "\<forall>k. memcpy_u32 (decrypt_pfs_head x f len p) (0x20000 + k * 0x10000) \<noteq> Some PfscMagic"
  shows "Extract_pfs_head x f len p = Some (Inl OutOfBounds)"
proof -
  let ?d = "decrypt_pfs_head x f len p"
  have "GetPFSCOffset ?d = Some (Inl OutOfBounds) \<or> GetPFSCOffset ?d = Some (Inr (- 1))"
    unfolding GetPFSCOffset_def using assms by (intro GetPFSCOffset_loop_absent) simp_all
  then show ?thesis
  proof
    assume "GetPFSCOffset ?d = Some (Inl OutOfBounds)"
    then show ?thesis by (simp add: Extract_pfs_head_def Let_def)
  next
    assume m: "GetPFSCOffset ?d = Some (Inr (- 1))"
    have "unat (ucast (- 1 :: u32) :: u64) = 4294967295"
      by (simp add: unsigned_ucast_eq unsigned_minus_1_eq_mask mask_eq_exp_minus_1 take_bit_eq_mod)
    then have "memcpy (replicate (unat len) 0) ?d (unat (ucast (- 1 :: u32) :: u64))
                 (unat ((ucast len :: u64) - ucast (- 1 :: u32))) = Inl OutOfBounds"
      using assms(1) by (simp add: memcpy_def)
    then show ?thesis using m by (simp add: Extract_pfs_head_def Let_def)
  qed
qed
text \<open>A head of 0x30000 bytes that decrypts to zeros.\<close>

lemma memcpy_u32_zeros: "memcpy_u32 (replicate n 0) i \<noteq> Some PfscMagic"
  by (simp add: memcpy_u32_def le_word_zeros PfscMagic_def)

theorem Extract_pfs_head_without_magic_witness:
  "unat (0x30000 :: u32) \<le> 0xFFFF0000 \<and>
   Extract_pfs_head plain_externals (open_read (replicate 0x30000 0)) 0x30000 fresh_PKG =
     Some (Inl OutOfBounds)"
proof -
  have d: "decrypt_pfs_head plain_externals (open_read (replicate 0x30000 0)) 0x30000 fresh_PKG =
             replicate 0x30000 0"
    by (simp add: decrypt_pfs_head_def decryptPFS_def plain_externals_def fresh_PKG_def
        open_read_def Seek_def Read_def fill_def Let_def)
  have "\<forall>k. memcpy_u32 (decrypt_pfs_head plain_externals (open_read (replicate 0x30000 0))
                 0x30000 fresh_PKG) (0x20000 + k * 0x10000) \<noteq> Some PfscMagic"
    unfolding d by (simp add: memcpy_u32_zeros)
  then show ?thesis
    using Extract_pfs_head_without_magic
      [of "0x30000" plain_externals "open_read (replicate 0x30000 0)" fresh_PKG]
    by simp
qed


subsection \<open>The dirent loops of the walker\<close>

text \<open>
  A positive stride from a position inside the block either moves the \<^verbatim>\<open>int\<close> index
  forward or makes it negative.
\<close>

lemma sint_stride:
  fixes i e :: u32
  assumes "0 \<le> sint i" "sint i < 65536" "0 < sint e"
  shows "sint (i + e) < 0 \<or> sint (i + e) = sint i + sint e"
proof -
  have eq: "sint (i + e) = signed_take_bit 31 (sint i + sint e)"
    by (simp add: sint_word_add)
  show ?thesis
  proof (cases "sint i + sint e < 2147483648")
    case True
    then have "signed_take_bit 31 (sint i + sint e) = sint i + sint e"
      using assms by (intro signed_take_bit_int_eq_self) simp_all
    then have "sint (i + e) = sint i + sint e" by (simp only: eq)
    then show ?thesis ..
  next
    case False
    then have "signed_take_bit 31 (sint i + sint e) \<le> sint i + sint e - 2 ^ Suc 31"
      by (intro signed_take_bit_int_less_eq) simp
    moreover have "sint e < 2147483648"
      using sint_lt [of e] by simp
    ultimately have "signed_take_bit 31 (sint i + sint e) < 0"
      using assms by (simp del: signed_take_bit_negative_iff)
    then have "sint (i + e) < 0" by (simp only: eq)
    then show ?thesis ..
  qed
qed

text \<open>
  While the dirents reached have positive strides, the uroot loop comes to an end: it leaves
  the block or reads outside it.
\<close>

lemma positive_strides_step:
  assumes "positive_strides sz dd i" "i < 65536" "i + sz \<le> length dd" "dirent_ino dd i \<noteq> 0"
  shows "0 < sint (dirent_entsize dd i)"
    and "positive_strides sz dd (i + nat (sint (dirent_entsize dd i)))"
proof -
  have *: "0 < sint (dirent_entsize dd i) \<and>
           positive_strides sz dd (i + nat (sint (dirent_entsize dd i)))"
    using assms by (subst (asm) positive_strides.simps) (simp split: if_splits)
  from * show "0 < sint (dirent_entsize dd i)" ..
  from * show "positive_strides sz dd (i + nat (sint (dirent_entsize dd i)))" ..
qed

lemma uroot_loop_returns:
  assumes "sint i < 0 \<or> positive_strides (sizeof_Dirent x) dd (nat (sint i))"
    and "block_data w = dd"
  shows "(\<exists>w'. uroot_loop x i w = Some (Inr w')) \<or> uroot_loop x i w = Some (Inl OutOfBounds)"
  using assms
proof (induction "nat (65536 - sint i)" arbitrary: i w rule: less_induct)
  case less
  show ?case
  proof (cases "sint i < 65536 \<and> \<not> (sint i < 0 \<or> length dd < nat (sint i) + sizeof_Dirent x) \<and>
                dirent_ino dd (nat (sint i)) \<noteq> 0")
    case False
    then show ?thesis
      using less.prems(2) by (subst (1 2) uroot_loop.simps) auto
  next
    case True
    let ?e = "dirent_entsize dd (nat (sint i))"
    let ?w = "w\<lparr>ent_size := ?e, ndinode_counter := ndinode_counter w + 1\<rparr>"
    have ps: "positive_strides (sizeof_Dirent x) dd (nat (sint i))"
      using less.prems(1) True by auto
    have pos: "0 < sint ?e"
      and nxt: "positive_strides (sizeof_Dirent x) dd (nat (sint i) + nat (sint ?e))"
      using positive_strides_step [OF ps] True by auto
    have bd: "block_data ?w = dd"
      using less.prems(2) by simp
    have "(\<exists>w'. uroot_loop x (i + ?e) ?w = Some (Inr w')) \<or>
          uroot_loop x (i + ?e) ?w = Some (Inl OutOfBounds)"
    proof (cases "sint (i + ?e) < 0")
      case neg: True
      then show ?thesis
        by (subst (1 2) uroot_loop.simps) simp
    next
      case False
      then have eq: "sint (i + ?e) = sint i + sint ?e"
        using sint_stride [of i ?e] True pos by auto
      then have m: "nat (65536 - sint (i + ?e)) < nat (65536 - sint i)"
        using True pos by simp
      have "nat (sint (i + ?e)) = nat (sint i) + nat (sint ?e)"
        using eq True pos by (simp add: nat_add_distrib)
      then have "sint (i + ?e) < 0 \<or> positive_strides (sizeof_Dirent x) dd (nat (sint (i + ?e)))"
        using nxt by simp
      with m show ?thesis
        using bd by (intro less.hyps)
    qed
    moreover have "uroot_loop x i w = uroot_loop x (i + ?e) ?w"
      using True less.prems(2) by (subst uroot_loop.simps) auto
    ultimately show ?thesis by simp
  qed
qed

text \<open>
  The body of the dir-mode loop keeps the block and takes its stride from the dirent; it
  faults on a negative \<open>namelen\<close> and on a name longer than the name field.
\<close>

lemma dirent_entry_keeps:
  assumes "dirent_entry x j w = Inr w1"
  shows "block_data w1 = block_data w \<and> ent_size w1 = dirent_entsize (block_data w) j"
  using assms by (auto simp: dirent_entry_def Let_def split: if_splits)

lemma dirent_entry_faults:
  assumes "dirent_entry x j w = Inl e"
  shows "e = OutOfBounds \<or> e = LengthError"
  using assms by (auto simp: dirent_entry_def Let_def split: if_splits)

lemma dirent_loop_returns:
  assumes "sint j < 0 \<or> positive_strides (sizeof_Dirent x) dd (nat (sint j))"
    and "block_data w = dd"
  shows "(\<exists>w'. dirent_loop x j w = Some (Inr w')) \<or> dirent_loop x j w = Some (Inl OutOfBounds) \<or>
         dirent_loop x j w = Some (Inl LengthError)"
  using assms
proof (induction "nat (65536 - sint j)" arbitrary: j w rule: less_induct)
  case less
  show ?case
  proof (cases "sint j < 65536 \<and> \<not> (sint j < 0 \<or> length dd < nat (sint j) + sizeof_Dirent x) \<and>
                dirent_ino dd (nat (sint j)) \<noteq> 0")
    case False
    then show ?thesis
      using less.prems(2) by (subst (1 2 3) dirent_loop.simps) auto
  next
    case True
    let ?e = "dirent_entsize dd (nat (sint j))"
    have ps: "positive_strides (sizeof_Dirent x) dd (nat (sint j))"
      using less.prems(1) True by auto
    have pos: "0 < sint ?e"
      and nxt: "positive_strides (sizeof_Dirent x) dd (nat (sint j) + nat (sint ?e))"
      using positive_strides_step [OF ps] True by auto
    show ?thesis
    proof (cases "dirent_entry x (nat (sint j)) w")
      case (Inl e)
      then have "dirent_loop x j w = Some (Inl e)"
        using True less.prems(2) by (subst dirent_loop.simps) auto
      then show ?thesis
        using dirent_entry_faults [OF Inl] by auto
    next
      case (Inr w1)
      have k: "block_data w1 = dd" "ent_size w1 = ?e"
        using dirent_entry_keeps [OF Inr] less.prems(2) by simp_all
      have "(\<exists>w'. dirent_loop x (j + ?e) w1 = Some (Inr w')) \<or>
            dirent_loop x (j + ?e) w1 = Some (Inl OutOfBounds) \<or>
            dirent_loop x (j + ?e) w1 = Some (Inl LengthError)"
      proof (cases "sint (j + ?e) < 0")
        case neg: True
        then show ?thesis
          by (subst (1 2 3) dirent_loop.simps) simp
      next
        case False
        then have eq: "sint (j + ?e) = sint j + sint ?e"
          using sint_stride [of j ?e] True pos by auto
        then have m: "nat (65536 - sint (j + ?e)) < nat (65536 - sint j)"
          using True pos by simp
        have "nat (sint (j + ?e)) = nat (sint j) + nat (sint ?e)"
          using eq True pos by (simp add: nat_add_distrib)
        then have "sint (j + ?e) < 0 \<or> positive_strides (sizeof_Dirent x) dd (nat (sint (j + ?e)))"
          using nxt by simp
        with m show ?thesis
          using k(1) by (intro less.hyps)
      qed
      moreover have "dirent_loop x j w = dirent_loop x (j + ?e) w1"
        using True less.prems(2) Inr k by (subst dirent_loop.simps) auto
      ultimately show ?thesis by simp
    qed
  qed
qed

text \<open>
  Claim C6, as amended. The walker checks neither \<open>entsize \<ge> 24\<close> nor the cumulative
  stride. What holds: if every dirent with \<open>ino \<noteq> 0\<close> that the loops reach in a block, going
  from offset 0 by the strides read, has an \<open>entsize\<close> that is positive as an \<^verbatim>\<open>int\<close>, then
  both per-block dirent loops end. The uroot loop ends by leaving the loop or by a read
  outside the block; the dir-mode loop ends by leaving the loop, by a read outside the
  block or the name field, or by a negative \<open>namelen\<close>.
\<close>

theorem dirent_loops_return_on_positive_strides:
  assumes "positive_strides (sizeof_Dirent x) (block_data w) 0"
  shows "((\<exists>w'. uroot_loop x 0 w = Some (Inr w')) \<or> uroot_loop x 0 w = Some (Inl OutOfBounds)) \<and>
         ((\<exists>w'. dirent_loop x 0 w = Some (Inr w')) \<or> dirent_loop x 0 w = Some (Inl OutOfBounds) \<or>
          dirent_loop x 0 w = Some (Inl LengthError))"
  using uroot_loop_returns [of 0 x "block_data w" w] dirent_loop_returns [of 0 x "block_data w" w]
    assms
  by simp

text \<open>
  A directory block with the dirents \<^verbatim>\<open>.\<close>, \<^verbatim>\<open>..\<close> and \<^verbatim>\<open>eboot.bin\<close>, of 24, 24 and 32 bytes,
  then zeros: both loops take three strides and leave at the dirent with \<open>ino = 0\<close> at
  offset 80.
\<close>

lemma dir_block_dirents:
  "length dir_block = 65536"
  "dirent_ino dir_block 0 = 2" "dirent_entsize dir_block 0 = 24" "dirent_namelen dir_block 0 = 1"
  "dirent_ino dir_block 24 = 1" "dirent_entsize dir_block 24 = 24" "dirent_namelen dir_block 24 = 2"
  "dirent_ino dir_block 48 = 3" "dirent_entsize dir_block 48 = 32" "dirent_namelen dir_block 48 = 9"
  "dirent_ino dir_block 80 = 0"
  by (simp_all add: dir_block_def dirent_ino_def dirent_entsize_def dirent_namelen_def
      le_word_zeros)

lemma dir_block_strides: "positive_strides 528 dir_block 0"
proof -
  have "positive_strides 528 dir_block 80"
    by (subst positive_strides.simps) (simp add: dir_block_dirents)
  then have "positive_strides 528 dir_block 48"
    by (subst positive_strides.simps) (simp add: dir_block_dirents)
  then have "positive_strides 528 dir_block 24"
    by (subst positive_strides.simps) (simp add: dir_block_dirents)
  then show ?thesis
    by (subst positive_strides.simps) (simp add: dir_block_dirents)
qed

lemma dir_block_uroot:
  assumes "block_data w = dir_block"
  shows "\<exists>w'. uroot_loop plain_externals 0 w = Some (Inr w')"
proof -
  have sz: "sizeof_Dirent plain_externals = 528"
    by (simp add: plain_externals_def)
  have "\<exists>w'. uroot_loop plain_externals 80 w = Some (Inr w')" if "block_data w = dir_block" for w
    using that by (subst uroot_loop.simps) (simp add: sz dir_block_dirents)
  then have "\<exists>w'. uroot_loop plain_externals 48 w = Some (Inr w')" if "block_data w = dir_block" for w
    using that by (subst uroot_loop.simps) (simp add: sz dir_block_dirents)
  then have "\<exists>w'. uroot_loop plain_externals 24 w = Some (Inr w')" if "block_data w = dir_block" for w
    using that by (subst uroot_loop.simps) (simp add: sz dir_block_dirents)
  then show ?thesis
    using assms by (subst uroot_loop.simps) (simp add: sz dir_block_dirents)
qed

lemma dir_block_entry:
  assumes "block_data w = dir_block" "j = 0 \<or> j = 24 \<or> j = 48"
  shows "\<exists>w1. dirent_entry plain_externals j w = Inr w1 \<and> block_data w1 = dir_block \<and>
              ent_size w1 = dirent_entsize dir_block j"
  using assms
  by (auto simp: dirent_entry_def Let_def dir_block_dirents plain_externals_def)

lemma dir_block_dirent:
  assumes "block_data w = dir_block"
  shows "\<exists>w'. dirent_loop plain_externals 0 w = Some (Inr w')"
proof -
  have sz: "sizeof_Dirent plain_externals = 528"
    by (simp add: plain_externals_def)
  have a: "\<exists>w'. dirent_loop plain_externals 80 w = Some (Inr w')" if "block_data w = dir_block" for w
    using that by (subst dirent_loop.simps) (simp add: sz dir_block_dirents)
  have b: "\<exists>w'. dirent_loop plain_externals 48 w = Some (Inr w')" if "block_data w = dir_block" for w
  proof -
    from dir_block_entry [OF that, of 48] obtain w1 where
      "dirent_entry plain_externals 48 w = Inr w1" "block_data w1 = dir_block" "ent_size w1 = 32"
      by (auto simp: dir_block_dirents)
    then show ?thesis
      using that a [of w1] by (subst dirent_loop.simps) (simp add: sz dir_block_dirents)
  qed
  have c: "\<exists>w'. dirent_loop plain_externals 24 w = Some (Inr w')" if "block_data w = dir_block" for w
  proof -
    from dir_block_entry [OF that, of 24] obtain w1 where
      "dirent_entry plain_externals 24 w = Inr w1" "block_data w1 = dir_block" "ent_size w1 = 24"
      by (auto simp: dir_block_dirents)
    then show ?thesis
      using that b [of w1] by (subst dirent_loop.simps) (simp add: sz dir_block_dirents)
  qed
  from dir_block_entry [OF assms, of 0] obtain w1 where
    "dirent_entry plain_externals 0 w = Inr w1" "block_data w1 = dir_block" "ent_size w1 = 24"
    by (auto simp: dir_block_dirents)
  then show ?thesis
    using assms c [of w1] by (subst dirent_loop.simps) (simp add: sz dir_block_dirents)
qed

theorem dirent_loops_return_on_positive_strides_witness:
  "positive_strides (sizeof_Dirent plain_externals) (block_data (walk_of dir_block)) 0 \<and>
   (\<exists>w'. uroot_loop plain_externals 0 (walk_of dir_block) = Some (Inr w')) \<and>
   (\<exists>w'. dirent_loop plain_externals 0 (walk_of dir_block) = Some (Inr w'))"
proof -
  have bd: "block_data (walk_of dir_block) = dir_block"
    by (simp add: walk_of_def)
  have h: "positive_strides (sizeof_Dirent plain_externals) (block_data (walk_of dir_block)) 0"
    using dir_block_strides by (simp add: bd plain_externals_def)
  have "uroot_loop plain_externals 0 (walk_of dir_block) \<noteq> Some (Inl OutOfBounds)"
    "dirent_loop plain_externals 0 (walk_of dir_block) \<noteq> Some (Inl OutOfBounds)"
    "dirent_loop plain_externals 0 (walk_of dir_block) \<noteq> Some (Inl LengthError)"
    using dir_block_uroot [OF bd] dir_block_dirent [OF bd] by auto
  with dirent_loops_return_on_positive_strides [OF h] h show ?thesis
    by blast
qed

text \<open>
  Claim C6 as stated fails: a block whose first dirent has \<open>ino = 1\<close> and \<open>entsize = 0\<close>
  keeps the uroot loop at offset 0 for ever.
\<close>

lemma stuck_ino: "dirent_ino (1 # replicate 65535 0) 0 = 1"
  by (simp add: dirent_ino_def le_word_zeros)

lemma stuck_entsize: "dirent_entsize (1 # replicate 65535 0) 0 = 0"
  by (simp add: dirent_entsize_def le_word_zeros)

theorem uroot_loop_zero_entsize_counterexample:
  "dirent_ino (1 # replicate 65535 0) 0 = 1 \<and> dirent_entsize (1 # replicate 65535 0) 0 = 0 \<and>
   uroot_loop plain_externals 0 (walk_of (1 # replicate 65535 0)) = None"
proof -
  let ?dd = "1 # replicate 65535 (0 :: u8)"
  let ?P = "\<lambda>x i w (y :: fault + walk_state).
              \<not> (x = plain_externals \<and> i = (0 :: u32) \<and> block_data w = ?dd)"
  have "uroot_loop plain_externals 0 (walk_of ?dd) = None"
  proof (rule ccontr)
    assume "uroot_loop plain_externals 0 (walk_of ?dd) \<noteq> None"
    then obtain y where y: "uroot_loop plain_externals 0 (walk_of ?dd) = Some y"
      by auto
    have "(case ((plain_externals, 0), walk_of ?dd) of
             (a, c) \<Rightarrow> (case a of (a, b) \<Rightarrow> ?P a b) c) y"
    proof (rule uroot_loop.raw_induct [where P = ?P])
      show "(case ((plain_externals, 0), walk_of ?dd) of
               (a, c) \<Rightarrow> (case a of (a, b) \<Rightarrow> uroot_loop a b) c) = Some y"
        using y by simp
    next
      fix f :: "externals \<Rightarrow> u32 \<Rightarrow> walk_state \<Rightarrow> (fault + walk_state) option"
        and x i w r
      assume ih: "\<And>x i w r. f x i w = Some r \<Longrightarrow> ?P x i w r"
      assume st: "(if sint i < 0x10000 then
          (if sint i < 0 \<or> length (block_data w) < nat (sint i) + sizeof_Dirent x
           then Some (Inl OutOfBounds)
           else if dirent_ino (block_data w) (nat (sint i)) \<noteq> 0
             then f x (i + dirent_entsize (block_data w) (nat (sint i)))
                    (w\<lparr>ent_size := dirent_entsize (block_data w) (nat (sint i)),
                       ndinode_counter := ndinode_counter w + 1\<rparr>)
             else Some (Inr (uroot_publish
                               (w\<lparr>ent_size := dirent_entsize (block_data w) (nat (sint i))\<rparr>))))
        else Some (Inr w)) = Some r"
      show "?P x i w r"
      proof
        assume a: "x = plain_externals \<and> i = 0 \<and> block_data w = ?dd"
        then have "f plain_externals 0 (w\<lparr>ent_size := 0, ndinode_counter := ndinode_counter w + 1\<rparr>) = Some r"
          using st by (simp add: stuck_ino stuck_entsize plain_externals_def)
        from ih [OF this] a show False by simp
      qed
    qed
    then show False by (simp add: walk_of_def)
  qed
  then show ?thesis by (simp add: stuck_ino stuck_entsize)
qed

subsection \<open>The entry loop: which slot an iteration reads\<close>

text \<open>Seeks and reads leave the bytes of the file alone and move the position.\<close>

lemma content_Seek [simp]: "content (snd (Seek t f)) = content f"
  by (simp add: Seek_def)

lemma content_Seek_cur [simp]: "content (snd (Seek_cur n f)) = content f"
  by (simp add: Seek_cur_def)

lemma content_Read [simp]: "content (snd (Read n f)) = content f"
  by (simp add: Read_def Let_def)

lemma pos_Seek: "t \<le> length (content f) \<Longrightarrow> pos (snd (Seek t f)) = t"
  by (simp add: Seek_def)

lemma fst_Seek: "fst (Seek t f) \<longleftrightarrow> t \<le> length (content f)"
  by (simp add: Seek_def)

lemma Read_inside:
  assumes "pos f + n \<le> length (content f)"
  shows "fst (Read n f) = take n (drop (pos f) (content f))" "pos (snd (Read n f)) = pos f + n"
  using assms by (simp_all add: Read_def Let_def)

lemma read_field_inside:
  assumes "pos f + 4 \<le> length (content f)" "off + 4 \<le> length e"
  shows "read_field off (e, f) =
           (take off e @ take 4 (drop (pos f) (content f)) @ drop (off + 4) e,
            f\<lparr>pos := pos f + 4\<rparr>)"
  using assms by (simp add: read_field_def Read_def Let_def store_def fill_def add.commute)

lemma read_entry_inside:
  assumes "pos f + 24 \<le> length (content f)"
  shows "fst (read_entry f) = take 24 (drop (pos f) (content f)) @ replicate 8 0"
    and "content (snd (read_entry f)) = content f"
    and "pos (snd (read_entry f)) =
           (if pos f + 32 \<le> length (content f) then pos f + 32 else pos f + 24)"
proof -
  let ?c = "content f" and ?p = "pos f"
  have six: "read_field 20 (read_field 16 (read_field 12 (read_field 8 (read_field 4
               (read_field 0 (replicate 32 0, f)))))) =
             (take 4 (drop ?p ?c) @ take 4 (drop (?p + 4) ?c) @ take 4 (drop (?p + 8) ?c) @
              take 4 (drop (?p + 12) ?c) @ take 4 (drop (?p + 16) ?c) @
              take 4 (drop (?p + 20) ?c) @ replicate 8 0,
              f\<lparr>pos := ?p + 24\<rparr>)"
    using assms by (simp add: read_field_inside add.commute)
  have "take 24 (drop ?p ?c) =
          take 4 (drop ?p ?c) @ take 4 (drop (?p + 4) ?c) @ take 4 (drop (?p + 8) ?c) @
          take 4 (drop (?p + 12) ?c) @ take 4 (drop (?p + 16) ?c) @ take 4 (drop (?p + 20) ?c)"
    using take_add [of 4 20 "drop ?p ?c"] take_add [of 4 16 "drop (?p + 4) ?c"]
      take_add [of 4 12 "drop (?p + 8) ?c"] take_add [of 4 8 "drop (?p + 12) ?c"]
      take_add [of 4 4 "drop (?p + 16) ?c"]
    by (simp add: add.commute)
  then show "fst (read_entry f) = take 24 (drop (pos f) (content f)) @ replicate 8 0"
    by (simp add: read_entry_def six Let_def)
  show "content (snd (read_entry f)) = content f"
    by (simp add: read_entry_def six Let_def)
  show "pos (snd (read_entry f)) =
           (if pos f + 32 \<le> length (content f) then pos f + 32 else pos f + 24)"
    by (simp add: read_entry_def six Let_def Seek_cur_def Seek_def)
qed

lemma content_derive_keys [simp]:
  "content (pkg_in (derive_keys x entry s)) = content (pkg_in s)"
  by (simp add: derive_keys_def Let_def)

lemma content_read_field [simp]: "content (snd (read_field off ef)) = content (snd ef)"
  by (simp add: read_field_def Let_def)

lemma read_entry_content [simp]: "content (snd (read_entry f)) = content f"
  by (simp add: read_entry_def Let_def)

text \<open>An iteration goes on to the next slot exactly when the entry's offset is in the file.\<close>

lemma Extract_entry_returns:
  "(\<exists>s'. Extract_entry x s = Inr s') \<longleftrightarrow>
   unat (entry_offset (fst (read_entry (pkg_in s)))) \<le> length (content (pkg_in s))"
  by (simp add: Extract_entry_def Let_def fst_Seek)

lemma Extract_entry_position:
  assumes "Extract_entry x s = Inr s'"
    and "pos (pkg_in s) + 32 \<le> length (content (pkg_in s))"
  shows "pos (pkg_in s') = pos (pkg_in s) + 32 \<and> content (pkg_in s') = content (pkg_in s)"
proof -
  have c: "content (snd (read_entry (pkg_in s))) = content (pkg_in s)"
    and p: "pos (snd (read_entry (pkg_in s))) = pos (pkg_in s) + 32"
    using assms(2) by (simp_all add: read_entry_inside)
  have sk: "pos (snd (Seek (pos (pkg_in s) + 32) f)) = pos (pkg_in s) + 32"
    if "content f = content (pkg_in s)" for f
    using that assms(2) by (simp add: pos_Seek)
  show ?thesis
    using assms(1)
    by (auto simp: Extract_entry_def Let_def Tell_def c p sk split: if_splits)
qed

lemma state_at_iteration_position:
  assumes "state_at_iteration x s0 i = Some s"
    and "pos (pkg_in s0) + 32 * i \<le> length (content (pkg_in s0))"
  shows "pos (pkg_in s) = pos (pkg_in s0) + 32 * i \<and> content (pkg_in s) = content (pkg_in s0)"
  using assms
proof (induction i arbitrary: s)
  case 0
  then show ?case by simp
next
  case (Suc i)
  from Suc.prems(1) obtain t where
    t: "state_at_iteration x s0 i = Some t" and e: "Extract_entry x t = Inr s"
    by (auto split: option.splits sum.splits)
  have ih: "pos (pkg_in t) = pos (pkg_in s0) + 32 * i \<and> content (pkg_in t) = content (pkg_in s0)"
    using Suc.IH [OF t] Suc.prems(2) by simp
  then have "pos (pkg_in t) + 32 \<le> length (content (pkg_in t))"
    using Suc.prems(2) by simp
  from Extract_entry_position [OF e this] ih show ?case by simp
qed

lemma Extract_entries_from_iteration:
  assumes "state_at_iteration x s0 i = Some s" and "i \<le> n"
  shows "Extract_entries x n 0 s0 = Extract_entries x n i s"
  using assms
proof (induction i arbitrary: s)
  case 0
  then show ?case by simp
next
  case (Suc i)
  from Suc.prems(1) obtain t where
    t: "state_at_iteration x s0 i = Some t" and e: "Extract_entry x t = Inr s"
    by (auto split: option.splits sum.splits)
  have "Extract_entries x n 0 s0 = Extract_entries x n i t"
    using Suc.IH [OF t] Suc.prems(2) by simp
  also have "\<dots> = Extract_entries x n (Suc i) s"
    using Suc.prems(2) e by (subst Extract_entries.simps) simp
  finally show ?case .
qed

text \<open>
  Claim C10, as amended. If the whole entry table lies inside the file, that is
  \<open>pkg_table_entry_offset + 32 * pkg_table_entry_count\<close> is at most the file size, then
  every iteration \<open>i\<close> that the entry loop reaches starts with the file position at
  \<open>pkg_table_entry_offset + 32 * i\<close>: the position saved in \<^verbatim>\<open>currentPos\<close> after the slot is
  restored at the end of the iteration, whatever payload seeks the iteration made.
\<close>

theorem entry_loop_reads_consecutive_slots:
  assumes "fst (Seek (unat (pkg_table_entry_offset (pkgheader p))) f)"
    and "unat (pkg_table_entry_offset (pkgheader p)) + 32 * unat (pkg_table_entry_count (pkgheader p))
           \<le> length (content f)"
    and "i < unat (pkg_table_entry_count (pkgheader p))"
    and "state_at_iteration x (entry_loop_start f u p) i = Some s"
  shows "Tell (pkg_in s) = unat (pkg_table_entry_offset (pkgheader p)) + 32 * i"
proof -
  let ?s0 = "entry_loop_start f u p"
  have p0: "pos (pkg_in ?s0) = unat (pkg_table_entry_offset (pkgheader p))"
    and c0: "content (pkg_in ?s0) = content f"
    using assms(1) by (simp_all add: entry_loop_start_def fst_Seek pos_Seek)
  have "pos (pkg_in ?s0) + 32 * i \<le> length (content (pkg_in ?s0))"
    using assms(2,3) by (simp add: p0 c0)
  from state_at_iteration_position [OF assms(4) this] show ?thesis
    by (simp add: Tell_def p0)
qed

lemma loop_start_simps:
  "4096 \<le> length bytes \<Longrightarrow> pos (pkg_in (loop_start bytes k)) = 4096"
  "content (pkg_in (loop_start bytes k)) = bytes"
  "obj (loop_start bytes k) = fresh_PKG\<lparr>pkgheader := table_header k, extract_path := path_of ''out''\<rparr>"
  "key1 (loop_start bytes k) = replicate 1792 0"
  "imgkeydata (loop_start bytes k) = replicate 256 0"
  by (simp_all add: loop_start_def entry_loop_start_def open_read_def table_header_def Seek_def
      zero_locals_def)

lemma zeros_entry:
  "entry_id (replicate 24 0 @ replicate 8 0) = 0"
  "entry_offset (replicate 24 0 @ replicate 8 0) = 0"
  "entry_size (replicate 24 0 @ replicate 8 0) = 0"
  by (simp_all add: entry_id_def entry_offset_def entry_size_def be_word_zeros)

theorem entry_loop_reads_consecutive_slots_witness:
  "fst (Seek (unat (pkg_table_entry_offset (table_header 2))) (open_read (replicate 4160 0))) \<and>
   unat (pkg_table_entry_offset (table_header 2)) + 32 * unat (pkg_table_entry_count (table_header 2))
     \<le> length (content (open_read (replicate 4160 0))) \<and>
   1 < unat (pkg_table_entry_count (table_header 2)) \<and>
   (\<exists>s. state_at_iteration plain_externals (loop_start (replicate 4160 0) 2) 1 = Some s \<and>
        Tell (pkg_in s) = 4096 + 32 * 1)"
proof -
  let ?s0 = "loop_start (replicate 4160 0) 2"
  let ?p = "fresh_PKG\<lparr>pkgheader := table_header 2, extract_path := path_of ''out''\<rparr>"
  have p0: "pos (pkg_in ?s0) = 4096" and c0: "content (pkg_in ?s0) = replicate 4160 0"
    by (simp_all add: loop_start_simps)
  have "fst (read_entry (pkg_in ?s0)) = replicate 24 0 @ replicate 8 0"
    by (simp add: read_entry_inside p0 c0)
  then have "unat (entry_offset (fst (read_entry (pkg_in ?s0)))) \<le> length (content (pkg_in ?s0))"
    by (simp add: zeros_entry)
  then obtain s where s: "Extract_entry plain_externals ?s0 = Inr s"
    using Extract_entry_returns [of plain_externals ?s0] by auto
  then have st: "state_at_iteration plain_externals ?s0 1 = Some s"
    by simp
  have a: "fst (Seek (unat (pkg_table_entry_offset (pkgheader ?p))) (open_read (replicate 4160 0)))"
    and b: "unat (pkg_table_entry_offset (pkgheader ?p)) + 32 * unat (pkg_table_entry_count (pkgheader ?p))
             \<le> length (content (open_read (replicate 4160 0)))"
    and c: "1 < unat (pkg_table_entry_count (pkgheader ?p))"
    by (simp_all add: table_header_def Seek_def open_read_def)
  have t: "Tell (pkg_in s) = 4096 + 32 * 1"
    using entry_loop_reads_consecutive_slots [OF a b c, of plain_externals zero_locals s] st
    by (simp add: loop_start_def table_header_def)
  have "fst (Seek (unat (pkg_table_entry_offset (table_header 2))) (open_read (replicate 4160 0)))"
    "unat (pkg_table_entry_offset (table_header 2)) + 32 * unat (pkg_table_entry_count (table_header 2))
       \<le> length (content (open_read (replicate 4160 0)))"
    "1 < unat (pkg_table_entry_count (table_header 2))"
    using a b c by simp_all
  then show ?thesis
    using st t by blast
qed

text \<open>
  Without the bound the claim fails: in a file of 4112 bytes with a table of two slots at
  4096, the first slot ends after 16 bytes. The reads deliver what is left, the relative
  seek over the reserved bytes fails, and the second iteration starts at 4112, not at 4128.
\<close>

theorem entry_loop_truncated_table_counterexample:
  "fst (Seek (unat (pkg_table_entry_offset (table_header 2))) (open_read (replicate 4112 0))) \<and>
   1 < unat (pkg_table_entry_count (table_header 2)) \<and>
   (\<exists>s. state_at_iteration plain_externals (loop_start (replicate 4112 0) 2) 1 = Some s \<and>
        Tell (pkg_in s) = 4112 \<and> unat (pkg_table_entry_offset (table_header 2)) + 32 * 1 = 4128)"
proof -
  let ?s0 = "loop_start (replicate 4112 0) 2"
  have p0: "pos (pkg_in ?s0) = 4096" and c0: "content (pkg_in ?s0) = replicate 4112 0"
    by (simp_all add: loop_start_simps)
  have f: "pkg_in ?s0 = \<lparr>content = replicate 4112 0, pos = 4096\<rparr>"
    using p0 c0 by (intro IOFile.equality) simp_all
  have r: "read_entry \<lparr>content = replicate 4112 0, pos = 4096\<rparr> =
             (replicate 32 0, \<lparr>content = replicate 4112 0, pos = 4112\<rparr>)"
    by (simp add: read_entry_def read_field_def Read_def store_def fill_def Let_def Seek_cur_def
        Seek_def replicate_add [symmetric])
  have z: "entry_id (replicate 32 0) = 0" "entry_offset (replicate 32 0) = 0"
    "entry_size (replicate 32 0) = 0"
    by (simp_all add: entry_id_def entry_offset_def entry_size_def be_word_zeros)
  have "\<exists>s. Extract_entry plain_externals ?s0 = Inr s \<and> pos (pkg_in s) = 4112"
    by (simp add: Extract_entry_def Let_def f r z plain_externals_def Seek_def Read_def Tell_def)
  then show ?thesis
    by (auto simp: table_header_def Seek_def open_read_def Tell_def)
qed

subsection \<open>Entries without a name\<close>

text \<open>What the output tree holds after a file is opened and written.\<close>

lemma fill_exact: "length new = length buf \<Longrightarrow> fill buf new = new"
  by (simp add: fill_def)

lemma files_create_directories [simp]: "files (create_directories q h) = files h"
  by (simp add: create_directories_def)

lemma files_open_write: "comps q \<noteq> [] \<Longrightarrow> files (open_write q h) = (files h)(q \<mapsto> [])"
  by (simp add: open_write_def)

lemma files_WriteRaw:
  "comps q \<noteq> [] \<Longrightarrow>
   files (WriteRaw q bs h) = (files h)(q \<mapsto> (case files h q of None \<Rightarrow> bs | Some old \<Rightarrow> old @ bs))"
  by (simp add: WriteRaw_def)

lemma comps_sce_sys: "comps (sce_sys p a) = comps (extract_path p) @ [''sce_sys'', a]"
  by (simp add: sce_sys_def path_div_def path_of_def)

lemma comps_at_root: "comps (path_div q (path_of b)) = comps q @ [b]"
  by (simp add: path_div_def path_of_def)

lemma comps_at_root_ne [simp]: "comps (path_div q (path_of b)) \<noteq> []"
  by (simp add: comps_at_root)

lemma comps_sce_sys_ne [simp]: "comps (sce_sys p a) \<noteq> []"
  by (simp add: comps_sce_sys)

lemma sce_sys_not_root: "sce_sys p a \<noteq> path_div (extract_path p) (path_of b)"
proof
  assume "sce_sys p a = path_div (extract_path p) (path_of b)"
  then have "comps (sce_sys p a) = comps (path_div (extract_path p) (path_of b))"
    by simp
  then show False
    by (simp add: comps_sce_sys comps_at_root)
qed

lemma sce_sys_disk [simp]: "sce_sys (p\<lparr>disk := h\<rparr>) nm = sce_sys p nm"
  by (simp add: sce_sys_def)

text \<open>
  Claim C8, as amended. For an entry of the PKG table whose id has no name and whose payload
  lies inside the file, the iteration of \<^verbatim>\<open>Extract\<close> writes the payload to
  \<^verbatim>\<open><out>/sce_sys/<id>\<close>, the id in decimal, and leaves \<^verbatim>\<open><out>/entry_0x<id>.bin\<close> as it was.
\<close>

theorem unknown_entry_is_written_under_sce_sys:
  assumes entry: "entry = fst (read_entry (pkg_in s))"
    and nm: "GetEntryNameByType x (entry_id entry) = []"
    and off: "unat (entry_offset entry) + unat (entry_size entry) \<le> length (content (pkg_in s))"
  shows "\<exists>s'. Extract_entry x s = Inr s' \<and>
           files (disk (obj s')) (sce_sys (obj s) (to_string (unat (entry_id entry)))) =
             Some (take (unat (entry_size entry))
                     (drop (unat (entry_offset entry)) (content (pkg_in s)))) \<and>
           files (disk (obj s'))
             (path_div (extract_path (obj s))
                (path_of (''entry_0x'' @ hex_string (unat (entry_id entry)) @ ''.bin''))) =
           files (disk (obj s))
             (path_div (extract_path (obj s))
                (path_of (''entry_0x'' @ hex_string (unat (entry_id entry)) @ ''.bin'')))"
proof -
  let ?data = "take (unat (entry_size entry)) (drop (unat (entry_offset entry)) (content (pkg_in s)))"
  have o: "unat (entry_offset entry) \<le> length (content (pkg_in s))"
    using off by simp
  have d: "fill (replicate (unat (entry_size entry)) 0) ?data = ?data"
    using off by (intro fill_exact) simp
  have n: "path_div (extract_path (obj s)) (path_of b) \<noteq> sce_sys (obj s) a" for a b
    using sce_sys_not_root [of "obj s" a b] by simp
  show ?thesis
    using nm o d
    by (simp add: Extract_entry_def Let_def entry [symmetric] fst_Seek files_WriteRaw
        files_open_write Read_def pos_Seek n)
qed

text \<open>
  A package with the single entry 0xDEADBEEF, 17 bytes long: the payload ends up in
  \<^verbatim>\<open>out/sce_sys/3735928559\<close>, and there is no \<^verbatim>\<open>out/entry_0xdeadbeef.bin\<close>.
\<close>

lemma length_deadbeef_slot [simp]: "length deadbeef_slot = 32"
  by (simp add: deadbeef_slot_def)

lemma unknown_entry_read:
  "fst (read_entry (pkg_in (loop_start unknown_entry_pkg 1))) = deadbeef_slot"
proof -
  have "4096 \<le> length unknown_entry_pkg"
    by (simp add: unknown_entry_pkg_def)
  then have p0: "pos (pkg_in (loop_start unknown_entry_pkg 1)) = 4096"
    by (simp add: loop_start_simps)
  have "pos (pkg_in (loop_start unknown_entry_pkg 1)) + 24
          \<le> length (content (pkg_in (loop_start unknown_entry_pkg 1)))"
    by (simp add: p0 loop_start_simps) (simp add: unknown_entry_pkg_def)
  moreover have "take 24 deadbeef_slot @ replicate 8 0 = deadbeef_slot"
    by (simp add: deadbeef_slot_def)
  ultimately show ?thesis
    by (simp add: read_entry_inside p0 loop_start_simps) (simp add: unknown_entry_pkg_def)
qed

lemma unknown_entry_fields:
  "entry_id deadbeef_slot = 0xDEADBEEF" "entry_offset deadbeef_slot = 0x1020"
  "entry_size deadbeef_slot = 0x11"
  by (simp_all add: entry_id_def entry_offset_def entry_size_def be_word_def deadbeef_slot_def)

lemma deadbeef_strings:
  "to_string 3735928559 = ''3735928559''" "hex_string 3735928559 = ''deadbeef''"
  by (simp_all add: to_string.simps hex_string.simps)

theorem unknown_entry_is_written_under_sce_sys_witness:
  "GetEntryNameByType plain_externals
     (entry_id (fst (read_entry (pkg_in (loop_start unknown_entry_pkg 1))))) = [] \<and>
   unat (entry_offset (fst (read_entry (pkg_in (loop_start unknown_entry_pkg 1))))) +
   unat (entry_size (fst (read_entry (pkg_in (loop_start unknown_entry_pkg 1)))))
     \<le> length (content (pkg_in (loop_start unknown_entry_pkg 1))) \<and>
   (\<exists>s'. Extract_entry plain_externals (loop_start unknown_entry_pkg 1) = Inr s' \<and>
      files (disk (obj s')) \<lparr>is_abs = False, comps = [''out'', ''sce_sys'', ''3735928559'']\<rparr> =
        Some (replicate 17 0x41) \<and>
      files (disk (obj s')) \<lparr>is_abs = False, comps = [''out'', ''entry_0xdeadbeef.bin'']\<rparr> = None)"
proof -
  let ?s = "loop_start unknown_entry_pkg 1"
  let ?e = "fst (read_entry (pkg_in ?s))"
  have nm: "GetEntryNameByType plain_externals (entry_id ?e) = []"
    by (simp add: unknown_entry_read unknown_entry_fields plain_externals_def)
  have off: "unat (entry_offset ?e) + unat (entry_size ?e) \<le> length (content (pkg_in ?s))"
    by (simp add: unknown_entry_read unknown_entry_fields loop_start_simps)
      (simp add: unknown_entry_pkg_def)
  have data: "take (unat (entry_size ?e)) (drop (unat (entry_offset ?e)) (content (pkg_in ?s))) =
                replicate 17 0x41"
    by (simp add: unknown_entry_read unknown_entry_fields loop_start_simps)
      (simp add: unknown_entry_pkg_def)
  have p1: "sce_sys (obj ?s) (to_string (unat (entry_id ?e))) =
              \<lparr>is_abs = False, comps = [''out'', ''sce_sys'', ''3735928559'']\<rparr>"
    by (simp add: unknown_entry_read unknown_entry_fields loop_start_simps sce_sys_def
        deadbeef_strings path_div_def path_of_def)
  have p2: "path_div (extract_path (obj ?s))
              (path_of (''entry_0x'' @ hex_string (unat (entry_id ?e)) @ ''.bin'')) =
              \<lparr>is_abs = False, comps = [''out'', ''entry_0xdeadbeef.bin'']\<rparr>"
    by (simp add: unknown_entry_read unknown_entry_fields loop_start_simps
        deadbeef_strings path_div_def path_of_def)
  have d0: "files (disk (obj ?s)) q = None" for q
    by (simp add: loop_start_simps fresh_PKG_def)
  from unknown_entry_is_written_under_sce_sys [OF refl nm off]
  show ?thesis
    unfolding data p1 p2 d0 using nm off by simp
qed

subsection \<open>The key chain of the entry 0x20\<close>

lemma Extract_entry_image_key:
  assumes slot: "pos (pkg_in s) + 24 \<le> length (content (pkg_in s))"
    and entry: "entry = take 24 (drop (pos (pkg_in s)) (content (pkg_in s))) @ replicate 8 0"
    and id: "entry_id entry = 0x20"
    and nm: "GetEntryNameByType x 0x20 \<noteq> []"
    and off: "unat (entry_offset entry) + 256 \<le> length (content (pkg_in s))"
    and len: "length (imgkeydata s) = 256"
  shows "\<exists>s'. Extract_entry x s = Inr s' \<and>
           imgkeydata s' = take 256 (drop (unat (entry_offset entry)) (content (pkg_in s))) \<and>
           ivKey (obj s') = fill (ivKey (obj s)) (sha256 x (entry @ take 32 (dk3 (obj s)))) \<and>
           imgKey (obj s') =
             fill (imgKey (obj s))
               (aes128_cbc_decrypt x (take 16 (drop 16 (ivKey (obj s')))) (take 16 (ivKey (obj s')))
                  (imgkeydata s')) \<and>
           ekpfsKey (obj s') = fill (ekpfsKey (obj s)) (rsa2048_decrypt x FakeKeyset (imgKey (obj s')))"
proof -
  have e: "fst (read_entry (pkg_in s)) = entry"
    using slot entry by (simp add: read_entry_inside)
  have l32: "take 32 entry = entry"
    using slot entry by simp
  have d: "fill (imgkeydata s)
             (take 256 (drop (unat (entry_offset entry)) (content (pkg_in s)))) =
           take 256 (drop (unat (entry_offset entry)) (content (pkg_in s)))"
    using off len by (intro fill_exact) simp
  have o: "unat (entry_offset entry) \<le> length (content (pkg_in s))"
    using off by simp
  show ?thesis
    using nm o
    by (simp add: Extract_entry_def Let_def e id derive_keys_def fst_Seek Read_def pos_Seek
        concatenated_ivkey_dk3_def l32 d ivKeyHASH256_def aesCbcCfb128Decrypt_def
        RSA2048Decrypt_def)
qed

text \<open>The iteration of the entry 0x10, which recovers \<open>dk3\<close> from the fourth of the seven keys.\<close>

lemma Extract_entry_entry_keys:
  assumes slot: "pos (pkg_in s) + 24 \<le> length (content (pkg_in s))"
    and entry: "entry = take 24 (drop (pos (pkg_in s)) (content (pkg_in s))) @ replicate 8 0"
    and id: "entry_id entry = 0x10"
    and nm: "GetEntryNameByType x 0x10 \<noteq> []"
    and off: "unat (entry_offset entry) + 2048 \<le> length (content (pkg_in s))"
    and len: "length (key1 s) = 1792"
  shows "\<exists>s'. Extract_entry x s = Inr s' \<and> imgkeydata s' = imgkeydata s \<and>
           ivKey (obj s') = ivKey (obj s) \<and> imgKey (obj s') = imgKey (obj s) \<and>
           ekpfsKey (obj s') = ekpfsKey (obj s) \<and>
           dk3 (obj s') =
             fill (dk3 (obj s))
               (rsa2048_decrypt x PkgDerivedKey3Keyset
                  (take 256 (drop (unat (entry_offset entry) + 1024) (content (pkg_in s)))))"
proof -
  let ?c = "content (pkg_in s)" and ?o = "unat (entry_offset entry)"
  have e: "fst (read_entry (pkg_in s)) = entry"
    using slot entry by (simp add: read_entry_inside)
  have o: "?o \<le> length ?c"
    using off by simp
  have k: "fill (key1 s) (take 1792 (drop (?o + 256) ?c)) = take 1792 (drop (?o + 256) ?c)"
    using off len by (intro fill_exact) simp
  have t: "take 256 (drop 768 (take 1792 (drop (?o + 256) ?c))) = take 256 (drop (?o + 1024) ?c)"
    by (simp add: drop_take add.commute)
  have m: "min (length ?c - ?o) 32 = 32" "min (length ?c - (?o + 32)) 224 = 224"
    using off by simp_all
  show ?thesis
    using nm o
    by (simp add: Extract_entry_def Let_def e id derive_keys_def fst_Seek Read_def pos_Seek
        RSA2048Decrypt_def m k t add.assoc)
qed

text \<open>
  Claim C1, as amended. At an entry with id 0x20 whose six fields and whose 256 bytes of
  payload lie inside the file, the iteration reads the 256 bytes of \<open>imgkeydata\<close> at the
  entry's offset; \<open>ivKey\<close> is the SHA-256 digest of 64 bytes: the 32 bytes of the struct
  \<^verbatim>\<open>PKGEntry\<close>, which are the 24 bytes of the slot's six fields followed by eight zero bytes
  (the slot's eight reserved bytes are skipped, never read), then the 32 bytes of \<open>dk3\<close> as
  it is at that moment; \<open>imgKey\<close> is the AES-128-CBC decryption of \<open>imgkeydata\<close> with the IV
  \<open>ivKey[0..16]\<close> and the key \<open>ivKey[16..32]\<close>; \<open>ekpfsKey\<close> is the RSA decryption of \<open>imgKey\<close>
  with the keyset \<open>FakeKeyset\<close>.
\<close>

theorem image_key_chain_on_zeroed_padding:
  assumes "pos (pkg_in s) + 24 \<le> length (content (pkg_in s))"
    and "entry = take 24 (drop (pos (pkg_in s)) (content (pkg_in s))) @ replicate 8 0"
    and "entry_id entry = 0x20"
    and "GetEntryNameByType x 0x20 \<noteq> []"
    and "unat (entry_offset entry) + 256 \<le> length (content (pkg_in s))"
    and "length (imgkeydata s) = 256"
  shows "\<exists>s'. Extract_entry x s = Inr s' \<and>
           imgkeydata s' = take 256 (drop (unat (entry_offset entry)) (content (pkg_in s))) \<and>
           ivKey (obj s') = fill (ivKey (obj s)) (sha256 x (entry @ take 32 (dk3 (obj s)))) \<and>
           imgKey (obj s') =
             fill (imgKey (obj s))
               (aes128_cbc_decrypt x (take 16 (drop 16 (ivKey (obj s')))) (take 16 (ivKey (obj s')))
                  (imgkeydata s')) \<and>
           ekpfsKey (obj s') = fill (ekpfsKey (obj s)) (rsa2048_decrypt x FakeKeyset (imgKey (obj s')))"
  using assms by (rule Extract_entry_image_key)

text \<open>
  The package \<open>keys_pkg entry_keys_slot image_key_slot\<close>: after the iteration of the entry
  0x10 has recovered \<open>dk3\<close>, the iteration of the entry 0x20 runs the chain.
\<close>

lemma length_slots [simp]: "length entry_keys_slot = 32" "length image_key_slot = 32"
  by (simp_all add: entry_keys_slot_def image_key_slot_def)

lemma keys_pkg_parts:
  assumes "length a = 32" "length b = 32"
  shows "length (keys_pkg a b) = 6464"
    and "take 24 (drop 4096 (keys_pkg a b)) = take 24 a"
    and "take 24 (drop 4128 (keys_pkg a b)) = take 24 b"
    and "take 32 (drop 4128 (keys_pkg a b)) = b"
    and "take 256 (drop 5184 (keys_pkg a b)) = replicate 256 0x33"
    and "take 256 (drop 6208 (keys_pkg a b)) = replicate 256 0x41"
    and "take 16 (drop 880 (keys_pkg a b)) = replicate 16 0"
  using assms by (simp_all add: keys_pkg_def)

lemma slot_fields:
  "entry_id (take 24 entry_keys_slot @ replicate 8 0) = 0x10"
  "entry_offset (take 24 entry_keys_slot @ replicate 8 0) = 0x1040"
  "entry_size (take 24 entry_keys_slot @ replicate 8 0) = 0x800"
  "entry_id (take 24 image_key_slot @ replicate 8 0) = 0x20"
  "entry_offset (take 24 image_key_slot @ replicate 8 0) = 0x1840"
  "entry_size (take 24 image_key_slot @ replicate 8 0) = 0x100"
  by (simp_all add: entry_id_def entry_offset_def entry_size_def be_word_def
      entry_keys_slot_def image_key_slot_def)

text \<open>
  The state after the iteration of the entry 0x10 of the package
  \<open>keys_pkg entry_keys_slot image_key_slot\<close>.
\<close>

lemma after_entry_keys:
  "\<exists>s. state_at_iteration plain_externals (loop_start (keys_pkg entry_keys_slot image_key_slot) 2) 1
          = Some s \<and>
        pos (pkg_in s) = 4128 \<and> content (pkg_in s) = keys_pkg entry_keys_slot image_key_slot \<and>
        imgkeydata s = replicate 256 0 \<and> dk3 (obj s) = replicate 32 0x33 \<and>
        ivKey (obj s) = replicate 32 0 \<and> imgKey (obj s) = replicate 256 0 \<and>
        ekpfsKey (obj s) = replicate 32 0"
proof -
  let ?K = "keys_pkg entry_keys_slot image_key_slot"
  let ?s0 = "loop_start ?K 2"
  note kp = keys_pkg_parts [OF length_slots]
  have p0: "pos (pkg_in ?s0) = 4096" and c0: "content (pkg_in ?s0) = ?K"
    by (simp_all add: loop_start_simps kp)
  have slot: "pos (pkg_in ?s0) + 24 \<le> length (content (pkg_in ?s0))"
    by (simp add: p0 c0 kp)
  have entry: "take 24 entry_keys_slot @ replicate 8 0 =
                 take 24 (drop (pos (pkg_in ?s0)) (content (pkg_in ?s0))) @ replicate 8 0"
    by (simp add: p0 c0 kp)
  have nm: "GetEntryNameByType plain_externals 0x10 \<noteq> []"
    by (simp add: plain_externals_def)
  have off: "unat (entry_offset (take 24 entry_keys_slot @ replicate 8 0)) + 2048
               \<le> length (content (pkg_in ?s0))"
    by (simp add: slot_fields c0 kp)
  have len: "length (key1 ?s0) = 1792"
    by (simp add: loop_start_simps)
  from Extract_entry_entry_keys [OF slot entry slot_fields(1) nm off len]
  obtain s where s: "Extract_entry plain_externals ?s0 = Inr s"
    and k: "imgkeydata s = imgkeydata ?s0" "ivKey (obj s) = ivKey (obj ?s0)"
      "imgKey (obj s) = imgKey (obj ?s0)" "ekpfsKey (obj s) = ekpfsKey (obj ?s0)"
    and d: "dk3 (obj s) =
              fill (dk3 (obj ?s0))
                (rsa2048_decrypt plain_externals PkgDerivedKey3Keyset
                   (take 256 (drop (unat (entry_offset (take 24 entry_keys_slot @ replicate 8 0)) + 1024)
                      (content (pkg_in ?s0)))))"
    by blast
  have "pos (pkg_in ?s0) + 32 \<le> length (content (pkg_in ?s0))"
    by (simp add: p0 c0 kp)
  from Extract_entry_position [OF s this]
  have ps: "pos (pkg_in s) = 4128" and cs: "content (pkg_in s) = ?K"
    by (simp_all add: p0 c0)
  have d': "dk3 (obj s) = replicate 32 0x33"
    unfolding d by (simp add: slot_fields c0 kp loop_start_simps fresh_PKG_def plain_externals_def
        fill_def)
  have "state_at_iteration plain_externals ?s0 1 = Some s"
    using s by simp
  then show ?thesis
    using ps cs d' k by (simp add: loop_start_simps fresh_PKG_def)
qed


lemma image_key_iteration:
  assumes st: "state_at_iteration plain_externals (loop_start (keys_pkg entry_keys_slot image_key_slot) 2) 1
                 = Some s"
    and f: "pos (pkg_in s) = 4128" "content (pkg_in s) = keys_pkg entry_keys_slot image_key_slot"
    and k: "imgkeydata s = replicate 256 0" "dk3 (obj s) = replicate 32 0x33"
      "ivKey (obj s) = replicate 32 0" "imgKey (obj s) = replicate 256 0"
      "ekpfsKey (obj s) = replicate 32 0"
  shows "pos (pkg_in s) + 24 \<le> length (content (pkg_in s))"
    and "take 24 (drop (pos (pkg_in s)) (content (pkg_in s))) @ replicate 8 0 =
           take 24 image_key_slot @ replicate 8 0"
    and "take 32 (drop (pos (pkg_in s)) (content (pkg_in s))) = image_key_slot"
    and "unat (entry_offset (take 24 image_key_slot @ replicate 8 0)) + 256
           \<le> length (content (pkg_in s))"
    and "take 256 (drop (unat (entry_offset (take 24 image_key_slot @ replicate 8 0)))
           (content (pkg_in s))) = replicate 256 0x41"
  using keys_pkg_parts [OF length_slots] by (simp_all add: f slot_fields)

theorem image_key_chain_on_zeroed_padding_witness:
  "\<exists>s. state_at_iteration plain_externals (loop_start (keys_pkg entry_keys_slot image_key_slot) 2) 1
          = Some s \<and>
        dk3 (obj s) = replicate 32 0x33 \<and>
        pos (pkg_in s) + 24 \<le> length (content (pkg_in s)) \<and>
        entry_id (take 24 (drop (pos (pkg_in s)) (content (pkg_in s))) @ replicate 8 0) = 0x20 \<and>
        GetEntryNameByType plain_externals 0x20 \<noteq> [] \<and>
        unat (entry_offset (take 24 (drop (pos (pkg_in s)) (content (pkg_in s))) @ replicate 8 0)) + 256
          \<le> length (content (pkg_in s)) \<and>
        length (imgkeydata s) = 256 \<and>
        (\<exists>s'. Extract_entry plain_externals s = Inr s' \<and>
           imgkeydata s' = replicate 256 0x41 \<and>
           ivKey (obj s') = take 24 image_key_slot @ replicate 8 0 \<and>
           imgKey (obj s') = replicate 256 0x41 \<and>
           ekpfsKey (obj s') = replicate 32 0x41)"
proof -
  from after_entry_keys obtain s where
    st: "state_at_iteration plain_externals (loop_start (keys_pkg entry_keys_slot image_key_slot) 2) 1
           = Some s"
    and f: "pos (pkg_in s) = 4128" "content (pkg_in s) = keys_pkg entry_keys_slot image_key_slot"
    and k: "imgkeydata s = replicate 256 0" "dk3 (obj s) = replicate 32 0x33"
      "ivKey (obj s) = replicate 32 0" "imgKey (obj s) = replicate 256 0"
      "ekpfsKey (obj s) = replicate 32 0"
    by blast
  note it = image_key_iteration [OF st f k]
  let ?e = "take 24 image_key_slot @ replicate 8 0"
  have entry: "?e = take 24 (drop (pos (pkg_in s)) (content (pkg_in s))) @ replicate 8 0"
    using it(2) by simp
  have nm: "GetEntryNameByType plain_externals 0x20 \<noteq> []"
    by (simp add: plain_externals_def)
  have len: "length (imgkeydata s) = 256"
    by (simp add: k)
  from image_key_chain_on_zeroed_padding [OF it(1) entry slot_fields(4) nm it(4) len]
  obtain s' where e: "Extract_entry plain_externals s = Inr s'"
    and d: "imgkeydata s' = take 256 (drop (unat (entry_offset ?e)) (content (pkg_in s)))"
    and iv: "ivKey (obj s') = fill (ivKey (obj s)) (sha256 plain_externals (?e @ take 32 (dk3 (obj s))))"
    and img: "imgKey (obj s') =
                fill (imgKey (obj s))
                  (aes128_cbc_decrypt plain_externals (take 16 (drop 16 (ivKey (obj s'))))
                     (take 16 (ivKey (obj s'))) (imgkeydata s'))"
    and ek: "ekpfsKey (obj s') =
               fill (ekpfsKey (obj s)) (rsa2048_decrypt plain_externals FakeKeyset (imgKey (obj s')))"
    by blast
  have d': "imgkeydata s' = replicate 256 0x41"
    using d it(5) by simp
  have iv': "ivKey (obj s') = ?e"
    unfolding iv by (simp add: k plain_externals_def fill_def)
  have img': "imgKey (obj s') = replicate 256 0x41"
    unfolding img d' by (simp add: k plain_externals_def fill_def)
  have ek': "ekpfsKey (obj s') = replicate 32 0x41"
    unfolding ek img' by (simp add: k plain_externals_def fill_def)
  show ?thesis
    using st k(2) it(1) it(4) nm len e d' iv' img' ek' slot_fields(4) entry
    by (intro exI [of _ s]) auto
qed

text \<open>
  The slot of the entry 0x20 of this package ends with eight bytes 0xFF. The hash input
  holds zeros in their place, so \<open>ivKey\<close> is not the digest of the slot's 32 bytes followed
  by \<open>dk3\<close>.
\<close>

theorem image_key_reserved_bytes_counterexample:
  "\<exists>s s'. state_at_iteration plain_externals
             (loop_start (keys_pkg entry_keys_slot image_key_slot) 2) 1 = Some s \<and>
           dk3 (obj s) = replicate 32 0x33 \<and>
           take 32 (drop (pos (pkg_in s)) (content (pkg_in s))) = image_key_slot \<and>
           entry_id image_key_slot = 0x20 \<and>
           Extract_entry plain_externals s = Inr s' \<and>
           ivKey (obj s') \<noteq>
             fill (ivKey (obj s)) (sha256 plain_externals (image_key_slot @ dk3 (obj s)))"
proof -
  from after_entry_keys obtain s where
    st: "state_at_iteration plain_externals (loop_start (keys_pkg entry_keys_slot image_key_slot) 2) 1
           = Some s"
    and f: "pos (pkg_in s) = 4128" "content (pkg_in s) = keys_pkg entry_keys_slot image_key_slot"
    and k: "imgkeydata s = replicate 256 0" "dk3 (obj s) = replicate 32 0x33"
      "ivKey (obj s) = replicate 32 0" "imgKey (obj s) = replicate 256 0"
      "ekpfsKey (obj s) = replicate 32 0"
    by blast
  note it = image_key_iteration [OF st f k]
  let ?e = "take 24 image_key_slot @ replicate 8 0"
  have entry: "?e = take 24 (drop (pos (pkg_in s)) (content (pkg_in s))) @ replicate 8 0"
    using it(2) by simp
  have nm: "GetEntryNameByType plain_externals 0x20 \<noteq> []"
    by (simp add: plain_externals_def)
  have len: "length (imgkeydata s) = 256"
    by (simp add: k)
  from Extract_entry_image_key [OF it(1) entry slot_fields(4) nm it(4) len]
  obtain s' where e: "Extract_entry plain_externals s = Inr s'"
    and iv: "ivKey (obj s') = fill (ivKey (obj s)) (sha256 plain_externals (?e @ take 32 (dk3 (obj s))))"
    by blast
  have iv': "ivKey (obj s') = ?e"
    unfolding iv by (simp add: k plain_externals_def fill_def)
  have claimed: "fill (ivKey (obj s)) (sha256 plain_externals (image_key_slot @ dk3 (obj s))) =
                   image_key_slot"
    by (simp add: k plain_externals_def fill_def)
  have ne: "?e \<noteq> image_key_slot"
    by (simp add: image_key_slot_def)
  have id: "entry_id image_key_slot = 0x20"
    by (simp add: entry_id_def be_word_def image_key_slot_def)
  show ?thesis
    using st k(2) it(3) id e iv' claimed ne
    by (intro exI [of _ s] exI [of _ s']) simp
qed

subsection \<open>What the entry loop leaves alone, and when it fails\<close>

lemma written_under_refl [simp]: "written_under_sce_sys ex h h"
  by (simp add: written_under_sce_sys_def)

lemma written_under_trans:
  "written_under_sce_sys ex h h1 \<Longrightarrow> written_under_sce_sys ex h1 h2 \<Longrightarrow>
   written_under_sce_sys ex h h2"
  unfolding written_under_sce_sys_def by metis

lemma written_under_create [simp]:
  "written_under_sce_sys ex h (create_directories q h)"
  by (simp add: written_under_sce_sys_def)

lemma written_under_open:
  "written_under_sce_sys ex h (open_write (path_div (path_div ex (path_of ''sce_sys'')) (path_of nm)) h)"
  by (auto simp: written_under_sce_sys_def files_open_write)

lemma written_under_write:
  "written_under_sce_sys ex h (WriteRaw (path_div (path_div ex (path_of ''sce_sys'')) (path_of nm)) bs h)"
  by (auto simp: written_under_sce_sys_def files_WriteRaw)

lemma pfs_untouched_refl [simp]: "pfs_untouched p p"
  by (simp add: pfs_untouched_def)

lemma pfs_untouched_trans:
  "pfs_untouched p p1 \<Longrightarrow> pfs_untouched p1 p2 \<Longrightarrow> pfs_untouched p p2"
  by (simp add: pfs_untouched_def)

lemma entry_frame_refl [simp]: "entry_frame p p"
  by (simp add: entry_frame_def)

lemma entry_frame_trans: "entry_frame p p1 \<Longrightarrow> entry_frame p1 p2 \<Longrightarrow> entry_frame p p2"
  unfolding entry_frame_def using written_under_trans pfs_untouched_trans by metis

lemma entry_frame_disk:
  "written_under_sce_sys (extract_path p) (disk p) h \<Longrightarrow> entry_frame p (p\<lparr>disk := h\<rparr>)"
  by (simp add: entry_frame_def pfs_untouched_def)

lemma derive_keys_frame: "entry_frame (obj s) (obj (derive_keys x entry s))"
  by (simp add: derive_keys_def Let_def entry_frame_def pfs_untouched_def)

lemma disk_derive_keys [simp]: "disk (obj (derive_keys x entry s)) = disk (obj s)"
  by (simp add: derive_keys_def Let_def)

lemma extract_path_derive_keys [simp]:
  "extract_path (obj (derive_keys x entry s)) = extract_path (obj s)"
  by (simp add: derive_keys_def Let_def)

lemma written_under_dump:
  "written_under_sce_sys (extract_path p) h
     (WriteRaw (sce_sys p nm) bs (open_write (sce_sys p nm) (create_directories q h)))"
  by (auto simp: written_under_sce_sys_def files_WriteRaw files_open_write sce_sys_def)

lemma written_under_dump2:
  "written_under_sce_sys (extract_path p) h
     (WriteRaw (sce_sys p nm) bs2 (open_write (sce_sys p nm)
        (WriteRaw (sce_sys p nm) bs (open_write (sce_sys p nm) (create_directories q h)))))"
  by (auto simp: written_under_sce_sys_def files_WriteRaw files_open_write sce_sys_def)

lemma Extract_entry_Inr:
  assumes "Extract_entry x s = Inr s'"
  shows "entry_frame (obj s) (obj s')" "content (pkg_in s') = content (pkg_in s)"
proof -
  have df: "\<And>entry s. pfs_untouched (obj s) (obj (derive_keys x entry s)) \<and>
              dataKey (obj (derive_keys x entry s)) = dataKey (obj s) \<and>
              tweakKey (obj (derive_keys x entry s)) = tweakKey (obj s) \<and>
              pkgheader (obj (derive_keys x entry s)) = pkgheader (obj s)"
    using derive_keys_frame by (simp add: entry_frame_def)
  show "entry_frame (obj s) (obj s')"
    using assms
    by (auto simp: Extract_entry_def Let_def entry_frame_def pfs_untouched_def decrypt_np_def
        written_under_dump written_under_dump2 df [unfolded pfs_untouched_def] sce_sys_def [symmetric]
        split: if_splits)
  show "content (pkg_in s') = content (pkg_in s)"
    using assms
    by (auto simp: Extract_entry_def Let_def read_entry_content split: if_splits)
qed


lemma Extract_entry_Inl:
  assumes "Extract_entry x s = Inl e"
  shows "fst e = ''Failed to seek to PKG entry offset''" "entry_frame (obj s) (snd e)"
proof -
  have df: "\<And>entry s. pfs_untouched (obj s) (obj (derive_keys x entry s)) \<and>
              dataKey (obj (derive_keys x entry s)) = dataKey (obj s) \<and>
              tweakKey (obj (derive_keys x entry s)) = tweakKey (obj s) \<and>
              pkgheader (obj (derive_keys x entry s)) = pkgheader (obj s)"
    using derive_keys_frame by (simp add: entry_frame_def)
  show "fst e = ''Failed to seek to PKG entry offset''"
    using assms by (auto simp: Extract_entry_def Let_def split: if_splits)
  show "entry_frame (obj s) (snd e)"
    using assms
    by (auto simp: Extract_entry_def Let_def entry_frame_def pfs_untouched_def
        written_under_dump written_under_open df [unfolded pfs_untouched_def]
        sce_sys_def [symmetric] written_under_sce_sys_def files_open_write files_WriteRaw
        split: if_splits)
qed

lemma Extract_entries_frame:
  "(\<forall>s'. Extract_entries x n i s = Inr s' \<longrightarrow>
       entry_frame (obj s) (obj s') \<and> content (pkg_in s') = content (pkg_in s)) \<and>
   (\<forall>e. Extract_entries x n i s = Inl e \<longrightarrow>
       fst e = ''Failed to seek to PKG entry offset'' \<and> entry_frame (obj s) (snd e))"
proof (induction x n i s rule: Extract_entries.induct)
  case (1 x n i s)
  show ?case
  proof (cases "i < n")
    case False
    then show ?thesis
      by (subst (1 2) Extract_entries.simps) simp
  next
    case True
    show ?thesis
    proof (cases "Extract_entry x s")
      case (Inl e)
      then show ?thesis
        using True Extract_entry_Inl [OF Inl]
        by (subst (1 2) Extract_entries.simps) simp
    next
      case (Inr t)
      have st: "Extract_entries x n i s = Extract_entries x n (Suc i) t"
        using True Inr by (subst Extract_entries.simps) simp
      have a: "entry_frame (obj s) (obj t)" and c: "content (pkg_in t) = content (pkg_in s)"
        using Extract_entry_Inr [OF Inr] by simp_all
      show ?thesis
        unfolding st using "1.IH" [OF True Inr] entry_frame_trans [OF a] c by auto
    qed
  qed
qed



lemma pos_same: "f\<lparr>pos := pos f\<rparr> = f"
  by simp

text \<open>
  With the table inside the file, the loop ends in \<open>Inr\<close> exactly when the offset of every
  entry is inside the file; the ids play no part.
\<close>

lemma Extract_entries_returns:
  assumes "pos (pkg_in s) + 32 * m \<le> length (content (pkg_in s))"
  shows "(\<exists>s'. Extract_entries x (i + m) i s = Inr s') \<longleftrightarrow>
         (\<forall>k<m. unat (entry_offset (fst (read_entry ((pkg_in s)\<lparr>pos := pos (pkg_in s) + 32 * k\<rparr>))))
                   \<le> length (content (pkg_in s)))"
  using assms
proof (induction m arbitrary: i s)
  case 0
  then show ?case
    by (subst Extract_entries.simps) simp
next
  case (Suc m)
  let ?Q = "\<lambda>s k. unat (entry_offset (fst (read_entry ((pkg_in s)\<lparr>pos := pos (pkg_in s) + 32 * k\<rparr>))))
                   \<le> length (content (pkg_in s))"
  show ?case
  proof (cases "Extract_entry x s")
    case (Inl e)
    then have "\<not> ?Q s 0"
      using Extract_entry_returns [of x s] by (simp add: pos_same)
    moreover have "Extract_entries x (i + Suc m) i s = Inl e"
      using Inl by (subst Extract_entries.simps) simp
    ultimately show ?thesis
      by auto
  next
    case (Inr t)
    have q0: "?Q s 0"
      using Extract_entry_returns [of x s] Inr by (simp add: pos_same)
    have pt: "pos (pkg_in t) = pos (pkg_in s) + 32" and ct: "content (pkg_in t) = content (pkg_in s)"
      using Extract_entry_position [OF Inr] Suc.prems by simp_all
    have f: "(pkg_in t)\<lparr>pos := pos (pkg_in t) + 32 * k\<rparr> =
             (pkg_in s)\<lparr>pos := pos (pkg_in s) + 32 * Suc k\<rparr>" for k
      using pt ct by (intro IOFile.equality) simp_all
    have st: "Extract_entries x (i + Suc m) i s = Extract_entries x (Suc i + m) (Suc i) t"
      using Inr by (subst Extract_entries.simps) simp
    have "(\<exists>s'. Extract_entries x (Suc i + m) (Suc i) t = Inr s') \<longleftrightarrow> (\<forall>k<m. ?Q t k)"
      using Suc.IH [of t "Suc i"] Suc.prems pt ct by simp
    also have "\<dots> \<longleftrightarrow> (\<forall>k<m. ?Q s (Suc k))"
      by (simp only: f ct)
    also have "\<dots> \<longleftrightarrow> (\<forall>k<Suc m. ?Q s k)"
    proof
      assume a: "\<forall>k<m. ?Q s (Suc k)"
      show "\<forall>k<Suc m. ?Q s k"
      proof (intro allI impI)
        fix k assume "k < Suc m"
        then show "?Q s k"
          using a q0 by (cases k) simp_all
      qed
    next
      assume a: "\<forall>k<Suc m. ?Q s k"
      show "\<forall>k<m. ?Q s (Suc k)"
        using a by (meson Suc_less_eq)
    qed
    finally show ?thesis
      unfolding st .
  qed
qed


lemma Extract_pfs_without_image:
  assumes "pfs_cache_size (pkgheader p) = 0"
  shows "Extract_pfs x f seed0 failreason p =
     Some (Inr (if unat (pfs_image_offset (pkgheader p) + 0x370) \<le> length (content f)
                then (True, failreason,
                      p\<lparr>dataKey := fst (PfsGenCryptoKey x (ekpfsKey p)
                                          (fill seed0 (take 16 (drop (unat (pfs_image_offset (pkgheader p) + 0x370)) (content f))))
                                          (dataKey p) (tweakKey p)),
                        tweakKey := snd (PfsGenCryptoKey x (ekpfsKey p)
                                          (fill seed0 (take 16 (drop (unat (pfs_image_offset (pkgheader p) + 0x370)) (content f))))
                                          (dataKey p) (tweakKey p))\<rparr>)
                else (False, ''Failed to seek to PFS image offset'', p)))"
  using assms
  by (simp add: Extract_pfs_def Let_def fst_Seek Extract_blocks.simps Read_def pos_Seek)

lemma Extract_without_image_frame:
  assumes "pfs_cache_size (fst pf) = 0"
  shows "\<exists>r fr p'. Extract x (Some pf) filepath extract failreason u p = Some (Inr (r, fr, p')) \<and>
           pfs_untouched p p' \<and> written_under_sce_sys extract (disk p) (disk p') \<and>
           (if r then (dataKey p', tweakKey p') =
                        PfsGenCryptoKey x (ekpfsKey p')
                          (fill (seed_init u)
                             (take 16 (drop (unat (pfs_image_offset (fst pf) + 0x370)) (snd pf))))
                          (dataKey p) (tweakKey p)
            else dataKey p' = dataKey p \<and> tweakKey p' = tweakKey p)"
proof -
  let ?p1 = "p\<lparr>extract_path := extract, pkgpath := filepath, pkgSize := GetSize (open_read (snd pf)),
                pkgheader := read_pkgheader pf (pkgheader p)\<rparr>"
  let ?f1 = "snd (Read 0x1000 (open_read (snd pf)))"
  let ?h = "read_pkgheader pf (pkgheader p)"
  let ?go = "magic ?h = 0x7F434E54 \<and> \<not> (of_nat (pkgSize ?p1) :: u64) < pkg_size ?h \<and>
             \<not> pkg_size ?h < pkg_content_size ?h + pkg_content_offset ?h \<and>
             fst (Seek (unat (pkg_table_entry_offset ?h)) ?f1)"
  let ?s0 = "entry_loop_start ?f1 u ?p1"
  have u1: "pfs_untouched p ?p1" and d1: "disk ?p1 = disk p" and e1: "extract_path ?p1 = extract"
    and k1: "dataKey ?p1 = dataKey p" "tweakKey ?p1 = tweakKey p"
    by (simp_all add: pfs_untouched_def)
  show ?thesis
  proof (cases ?go)
    case False
    then show ?thesis
      using u1 by (auto simp: Extract_def Let_def)
  next
    case True
    then have ex: "Extract x (Some pf) filepath extract failreason u p =
                     (case Extract_entries x (unat (pkg_table_entry_count ?h)) 0 ?s0 of
                        Inl e \<Rightarrow> Some (Inr (False, fst e, snd e))
                      | Inr s \<Rightarrow> Extract_pfs x (pkg_in s) (seed_init u) failreason (obj s))"
      by (simp add: Extract_def Let_def)
    have o0: "obj ?s0 = ?p1" and c0: "content (pkg_in ?s0) = snd pf"
      by (simp_all add: entry_loop_start_def open_read_def)
    show ?thesis
    proof (cases "Extract_entries x (unat (pkg_table_entry_count ?h)) 0 ?s0")
      case (Inl e)
      then have "entry_frame ?p1 (snd e)"
        using Extract_entries_frame [of x "unat (pkg_table_entry_count ?h)" 0 ?s0] o0 by simp
      then have "pfs_untouched ?p1 (snd e)" "written_under_sce_sys extract (disk p) (disk (snd e))"
        "dataKey (snd e) = dataKey p" "tweakKey (snd e) = tweakKey p"
        by (simp_all add: entry_frame_def)
      then show ?thesis
        unfolding ex Inl using pfs_untouched_trans [OF u1]
        by (intro exI [of _ False] exI [of _ "fst e"] exI [of _ "snd e"]) simp
    next
      case (Inr s)
      then have fr: "entry_frame ?p1 (obj s)" and cs: "content (pkg_in s) = snd pf"
        using Extract_entries_frame [of x "unat (pkg_table_entry_count ?h)" 0 ?s0] o0 c0
        by simp_all
      from fr have us: "pfs_untouched ?p1 (obj s)"
        and ws: "written_under_sce_sys extract (disk p) (disk (obj s))"
        and ks: "dataKey (obj s) = dataKey p" "tweakKey (obj s) = tweakKey p"
        and hs: "pkgheader (obj s) = ?h"
        by (simp_all add: entry_frame_def)
      have c: "pfs_cache_size (pkgheader (obj s)) = 0"
        and io: "pfs_image_offset (pkgheader (obj s)) = pfs_image_offset (fst pf)"
        using assms by (simp_all add: hs read_pkgheader_def)
      have up: "pfs_untouched p (obj s)"
        using pfs_untouched_trans [OF u1 us] .
      show ?thesis
        unfolding ex Inr
        using up ws
        by (auto simp: Extract_pfs_without_image [OF c] io cs ks pfs_untouched_def)
    qed
  qed
qed



text \<open>
  Claim C5, as amended. For a header with \<open>pfs_cache_size = 0\<close>, \<^verbatim>\<open>Extract\<close> returns, nothing
  of the PFS is loaded (the file table, the inodes, the sector map, the extract paths and
  \<open>pfsc_offset\<close> are as before) and every file written is \<^verbatim>\<open><out>/sce_sys/<name>\<close>. The keys
  past \<open>ekpfsKey\<close> are derived all the same: when \<^verbatim>\<open>Extract\<close> returns true, \<open>dataKey\<close> and
  \<open>tweakKey\<close> are what \<^verbatim>\<open>PfsGenCryptoKey\<close> makes of \<open>ekpfsKey\<close> and the 16 bytes of seed at
  \<open>pfs_image_offset + 0x370\<close>; when it returns false they are unchanged.
\<close>

theorem Extract_without_pfs_image:
  assumes "pfs_cache_size (fst pf) = 0"
  shows "\<exists>r fr p'. Extract x (Some pf) filepath extract failreason u p = Some (Inr (r, fr, p')) \<and>
           pfs_untouched p p' \<and> written_under_sce_sys extract (disk p) (disk p') \<and>
           (if r then (dataKey p', tweakKey p') =
                        PfsGenCryptoKey x (ekpfsKey p')
                          (fill (seed_init u)
                             (take 16 (drop (unat (pfs_image_offset (fst pf) + 0x370)) (snd pf))))
                          (dataKey p) (tweakKey p)
            else dataKey p' = dataKey p \<and> tweakKey p' = tweakKey p)"
  using assms by (rule Extract_without_image_frame)

text \<open>
  A run on a package without PFS image returns true when the header passes the tests, the
  table and the payload offsets of its entries are inside the file, and so is the seed.
\<close>

lemma Extract_succeeds_without_image:
  assumes magic: "4 \<le> length (snd pf)" "be_word (take 4 (snd pf)) = (0x7F434E54 :: u32)"
    and sz1: "\<not> (of_nat (length (snd pf)) :: u64) < pkg_size (fst pf)"
    and sz2: "\<not> pkg_size (fst pf) < pkg_content_size (fst pf) + pkg_content_offset (fst pf)"
    and table: "unat (pkg_table_entry_offset (fst pf)) + 32 * unat (pkg_table_entry_count (fst pf))
                  \<le> length (snd pf)"
    and offs: "\<forall>k<unat (pkg_table_entry_count (fst pf)).
                 unat (entry_offset (fst (read_entry
                    \<lparr>content = snd pf, pos = unat (pkg_table_entry_offset (fst pf)) + 32 * k\<rparr>)))
                   \<le> length (snd pf)"
    and cache: "pfs_cache_size (fst pf) = 0"
    and seed: "unat (pfs_image_offset (fst pf) + 0x370) \<le> length (snd pf)"
  shows "\<exists>p'. Extract x (Some pf) filepath extract failreason u p =
                 Some (Inr (True, failreason, p')) \<and>
              (dataKey p', tweakKey p') =
                PfsGenCryptoKey x (ekpfsKey p')
                  (fill (seed_init u)
                     (take 16 (drop (unat (pfs_image_offset (fst pf) + 0x370)) (snd pf))))
                  (dataKey p) (tweakKey p)"
proof -
  let ?p1 = "p\<lparr>extract_path := extract, pkgpath := filepath, pkgSize := GetSize (open_read (snd pf)),
                pkgheader := read_pkgheader pf (pkgheader p)\<rparr>"
  let ?f1 = "snd (Read 0x1000 (open_read (snd pf)))"
  let ?h = "read_pkgheader pf (pkgheader p)"
  let ?s0 = "entry_loop_start ?f1 u ?p1"
  let ?n = "unat (pkg_table_entry_count (fst pf))"
  let ?o = "unat (pkg_table_entry_offset (fst pf))"
  have h: "magic ?h = 0x7F434E54" "pkg_size ?h = pkg_size (fst pf)"
    "pkg_content_size ?h = pkg_content_size (fst pf)"
    "pkg_content_offset ?h = pkg_content_offset (fst pf)"
    "pkg_table_entry_offset ?h = pkg_table_entry_offset (fst pf)"
    "pkg_table_entry_count ?h = pkg_table_entry_count (fst pf)"
    using magic by (simp_all add: magic_read_pkgheader)
  have o: "?o \<le> length (snd pf)"
    using table by simp
  have ex: "Extract x (Some pf) filepath extract failreason u p =
              (case Extract_entries x ?n 0 ?s0 of
                 Inl e \<Rightarrow> Some (Inr (False, fst e, snd e))
               | Inr s \<Rightarrow> Extract_pfs x (pkg_in s) (seed_init u) failreason (obj s))"
    using sz1 sz2 o by (simp add: Extract_def Let_def h fst_Seek GetSize_def open_read_def)
  have f0: "pkg_in ?s0 = \<lparr>content = snd pf, pos = ?o\<rparr>"
    using o by (intro IOFile.equality) (simp_all add: entry_loop_start_def h pos_Seek open_read_def)
  have o0: "obj ?s0 = ?p1"
    by (simp add: entry_loop_start_def)
  have "\<exists>s. Extract_entries x (0 + ?n) 0 ?s0 = Inr s"
    using Extract_entries_returns [of ?s0 ?n x 0] table offs by (simp add: f0)
  then obtain s where s: "Extract_entries x ?n 0 ?s0 = Inr s"
    by auto
  then have fr: "entry_frame ?p1 (obj s)" and cs: "content (pkg_in s) = snd pf"
    using Extract_entries_frame [of x ?n 0 ?s0] o0 f0 by simp_all
  from fr have ks: "dataKey (obj s) = dataKey p" "tweakKey (obj s) = tweakKey p"
    and hs: "pkgheader (obj s) = ?h"
    by (simp_all add: entry_frame_def)
  have c: "pfs_cache_size (pkgheader (obj s)) = 0"
    and io: "pfs_image_offset (pkgheader (obj s)) = pfs_image_offset (fst pf)"
    using cache by (simp_all add: hs read_pkgheader_def)
  show ?thesis
    unfolding ex s using seed
    by (simp add: Extract_pfs_without_image [OF c] io cs ks)
qed

text \<open>
  Claim C3, as amended. \<^verbatim>\<open>Extract\<close> has no test of the order or the presence of the entries
  0x10 and 0x20. With the entry table inside the file, the entry loop runs through all
  entries exactly when the payload offset of every entry is inside the file, whatever the
  ids are; when it returns false, \<open>failreason\<close> is \<^verbatim>\<open>Failed to seek to PKG entry offset\<close>.
\<close>

theorem entry_loop_fails_only_on_seek:
  assumes "pos (pkg_in s) + 32 * n \<le> length (content (pkg_in s))"
  shows "((\<exists>s'. Extract_entries x n 0 s = Inr s') \<longleftrightarrow>
          (\<forall>k<n. unat (entry_offset (fst (read_entry ((pkg_in s)\<lparr>pos := pos (pkg_in s) + 32 * k\<rparr>))))
                    \<le> length (content (pkg_in s)))) \<and>
         (\<forall>e. Extract_entries x n 0 s = Inl e \<longrightarrow> fst e = ''Failed to seek to PKG entry offset'')"
  using Extract_entries_returns [OF assms, of x 0] Extract_entries_frame [of x n 0 s] by simp


lemma keys_pkg_offsets:
  assumes l: "length a = 32" "length b = 32"
    and a: "unat (entry_offset (take 24 a @ replicate 8 0)) \<le> 6464"
    and b: "unat (entry_offset (take 24 b @ replicate 8 0)) \<le> 6464"
  shows "\<forall>k<2. unat (entry_offset (fst (read_entry \<lparr>content = keys_pkg a b, pos = 4096 + 32 * k\<rparr>)))
                  \<le> length (keys_pkg a b)"
proof (intro allI impI)
  fix k :: nat
  assume "k < 2"
  then consider "k = 0" | "k = 1"
    by linarith
  then show "unat (entry_offset (fst (read_entry \<lparr>content = keys_pkg a b, pos = 4096 + 32 * k\<rparr>)))
               \<le> length (keys_pkg a b)"
  proof cases
    case 1
    then show ?thesis
      using a by (simp add: read_entry_inside keys_pkg_parts [OF l])
  next
    case 2
    then show ?thesis
      using b by (simp add: read_entry_inside keys_pkg_parts [OF l])
  qed
qed

lemma keys_pkg_magic: "be_word (take 4 (keys_pkg a b)) = (0x7F434E54 :: u32)"
  by (simp add: keys_pkg_def be_word_def)

lemma table_header_fields:
  "pkg_size (table_header n) = 0" "pkg_content_size (table_header n) = 0"
  "pkg_content_offset (table_header n) = 0" "pkg_table_entry_offset (table_header n) = 0x1000"
  "pkg_table_entry_count (table_header n) = n" "pfs_image_offset (table_header n) = 0"
  "pfs_cache_size (table_header n) = 0"
  by (simp_all add: table_header_def fresh_PKG_def)

lemma Extract_keys_pkg:
  assumes l: "length a = 32" "length b = 32"
    and a: "unat (entry_offset (take 24 a @ replicate 8 0)) \<le> 6464"
    and b: "unat (entry_offset (take 24 b @ replicate 8 0)) \<le> 6464"
  shows "\<exists>p'. Extract plain_externals (Some (table_header 2, keys_pkg a b)) (path_of ''in.pkg'')
                 (path_of ''out'') [] zero_locals fresh_PKG = Some (Inr (True, [], p')) \<and>
              tweakKey p' = [1, 0, 0, 0] @ replicate 12 0"
proof -
  let ?pf = "(table_header 2, keys_pkg a b)"
  note kp = keys_pkg_parts [OF l]
  have "\<exists>p'. Extract plain_externals (Some ?pf) (path_of ''in.pkg'') (path_of ''out'') []
                 zero_locals fresh_PKG = Some (Inr (True, [], p')) \<and>
              (dataKey p', tweakKey p') =
                PfsGenCryptoKey plain_externals (ekpfsKey p')
                  (fill (seed_init zero_locals)
                     (take 16 (drop (unat (pfs_image_offset (fst ?pf) + 0x370)) (snd ?pf))))
                  (dataKey fresh_PKG) (tweakKey fresh_PKG)"
    using keys_pkg_offsets [OF l a b]
    by (intro Extract_succeeds_without_image)
      (simp_all add: keys_pkg_magic table_header_fields kp)
  then obtain p' where e: "Extract plain_externals (Some ?pf) (path_of ''in.pkg'') (path_of ''out'') []
                             zero_locals fresh_PKG = Some (Inr (True, [], p'))"
    and k: "(dataKey p', tweakKey p') =
              PfsGenCryptoKey plain_externals (ekpfsKey p')
                (fill (seed_init zero_locals)
                   (take 16 (drop (unat (pfs_image_offset (fst ?pf) + 0x370)) (snd ?pf))))
                (dataKey fresh_PKG) (tweakKey fresh_PKG)"
    by blast
  have "tweakKey p' = [1, 0, 0, 0] @ replicate 12 0"
    using k
    by (simp add: PfsGenCryptoKey_def Let_def table_header_fields kp zero_locals_def fill_def
        plain_externals_def fresh_PKG_def)
  with e show ?thesis
    by blast
qed

text \<open>
  The package \<open>keys_pkg image_key_slot entry_keys_slot\<close> has its entry 0x20 before its
  entry 0x10 and no PFS image.
\<close>

theorem entry_loop_fails_only_on_seek_witness:
  "pos (pkg_in (loop_start (keys_pkg image_key_slot entry_keys_slot) 2)) + 32 * 2
     \<le> length (content (pkg_in (loop_start (keys_pkg image_key_slot entry_keys_slot) 2))) \<and>
   (\<exists>s'. Extract_entries plain_externals 2 0
           (loop_start (keys_pkg image_key_slot entry_keys_slot) 2) = Inr s')"
proof -
  let ?K = "keys_pkg image_key_slot entry_keys_slot"
  let ?s = "loop_start ?K 2"
  note kp = keys_pkg_parts [OF length_slots(2) length_slots(1)]
  have p0: "pos (pkg_in ?s) = 4096" and c0: "content (pkg_in ?s) = ?K"
    by (simp_all add: loop_start_simps kp)
  have f: "(pkg_in ?s)\<lparr>pos := pos (pkg_in ?s) + 32 * k\<rparr> = \<lparr>content = ?K, pos = 4096 + 32 * k\<rparr>" for k
    by (intro IOFile.equality) (simp_all add: p0 c0)
  have t: "pos (pkg_in ?s) + 32 * 2 \<le> length (content (pkg_in ?s))"
    by (simp add: p0 c0 kp)
  have q: "\<forall>k<2. unat (entry_offset (fst (read_entry ((pkg_in ?s)\<lparr>pos := pos (pkg_in ?s) + 32 * k\<rparr>))))
                   \<le> length (content (pkg_in ?s))"
    unfolding f c0
    by (intro keys_pkg_offsets) (simp_all add: slot_fields)
  show ?thesis
    using entry_loop_fails_only_on_seek [OF t, of plain_externals] q t by blast
qed

text \<open>
  Claim C3 as stated fails on it: \<^verbatim>\<open>Extract\<close> returns true.
\<close>

theorem Extract_image_key_first_counterexample:
  "entry_id image_key_slot = 0x20 \<and> entry_id entry_keys_slot = 0x10 \<and>
   (\<exists>p'. Extract plain_externals (Some (table_header 2, keys_pkg image_key_slot entry_keys_slot))
            (path_of ''in.pkg'') (path_of ''out'') [] zero_locals fresh_PKG =
          Some (Inr (True, [], p')))"
proof -
  have "entry_id image_key_slot = 0x20" "entry_id entry_keys_slot = 0x10"
    by (simp_all add: entry_id_def be_word_def image_key_slot_def entry_keys_slot_def)
  moreover have "\<exists>p'. Extract plain_externals
                      (Some (table_header 2, keys_pkg image_key_slot entry_keys_slot))
                      (path_of ''in.pkg'') (path_of ''out'') [] zero_locals fresh_PKG =
                    Some (Inr (True, [], p'))"
    using Extract_keys_pkg [of image_key_slot entry_keys_slot]
    by (simp add: slot_fields) blast
  ultimately show ?thesis
    by blast
qed

text \<open>
  The package \<open>keys_pkg entry_keys_slot image_key_slot\<close> has \<open>pfs_cache_size = 0\<close>.
\<close>

theorem Extract_without_pfs_image_witness:
  "pfs_cache_size (fst (table_header 2, keys_pkg entry_keys_slot image_key_slot)) = 0 \<and>
   (\<exists>r fr p'. Extract plain_externals (Some (table_header 2, keys_pkg entry_keys_slot image_key_slot))
                 (path_of ''in.pkg'') (path_of ''out'') [] zero_locals fresh_PKG =
               Some (Inr (r, fr, p')) \<and>
               pfs_untouched fresh_PKG p' \<and>
               written_under_sce_sys (path_of ''out'') (disk fresh_PKG) (disk p'))"
proof -
  have c: "pfs_cache_size (fst (table_header 2, keys_pkg entry_keys_slot image_key_slot)) = 0"
    by (simp add: table_header_fields)
  from Extract_without_pfs_image [OF c, of plain_externals "path_of ''in.pkg''" "path_of ''out''"
      "[]" zero_locals fresh_PKG]
  show ?thesis
    using c by blast
qed

text \<open>
  Claim C5 as stated fails on it: the run returns true and leaves in \<open>tweakKey\<close> the key
  derived from the seed.
\<close>

theorem Extract_derives_pfs_keys_counterexample:
  "pfs_cache_size (table_header 2) = 0 \<and> tweakKey fresh_PKG = replicate 16 0 \<and>
   (\<exists>p'. Extract plain_externals (Some (table_header 2, keys_pkg entry_keys_slot image_key_slot))
            (path_of ''in.pkg'') (path_of ''out'') [] zero_locals fresh_PKG =
          Some (Inr (True, [], p')) \<and>
          tweakKey p' = [1, 0, 0, 0] @ replicate 12 0)"
proof -
  have "pfs_cache_size (table_header 2) = 0" "tweakKey fresh_PKG = replicate 16 0"
    by (simp_all add: table_header_fields fresh_PKG_def)
  moreover have "\<exists>p'. Extract plain_externals
                      (Some (table_header 2, keys_pkg entry_keys_slot image_key_slot))
                      (path_of ''in.pkg'') (path_of ''out'') [] zero_locals fresh_PKG =
                    Some (Inr (True, [], p')) \<and>
                    tweakKey p' = [1, 0, 0, 0] @ replicate 12 0"
    using Extract_keys_pkg [of entry_keys_slot image_key_slot]
    by (simp add: slot_fields)
  ultimately show ?thesis
    by blast
qed


subsection \<open>A package whose only entry has no name\<close>

text \<open>
  Claim C8 as stated fails on the package with the single entry 0xDEADBEEF: \<^verbatim>\<open>Extract\<close>
  returns true, the file table is empty, so that no call of \<^verbatim>\<open>ExtractFiles\<close> follows, and
  there is no \<^verbatim>\<open>out/entry_0xdeadbeef.bin\<close>.
\<close>

lemma unknown_entry_pkg_parts:
  "length unknown_entry_pkg = 4145"
  "take 24 (drop 4096 unknown_entry_pkg) @ replicate 8 0 = deadbeef_slot"
  "be_word (take 4 unknown_entry_pkg) = (0x7F434E54 :: u32)"
proof -
  show "length unknown_entry_pkg = 4145"
    by (simp add: unknown_entry_pkg_def)
  have "take 24 deadbeef_slot @ replicate 8 0 = deadbeef_slot"
    by (simp add: deadbeef_slot_def)
  then show "take 24 (drop 4096 unknown_entry_pkg) @ replicate 8 0 = deadbeef_slot"
    by (simp add: unknown_entry_pkg_def)
  show "be_word (take 4 unknown_entry_pkg) = (0x7F434E54 :: u32)"
    by (simp add: unknown_entry_pkg_def be_word_def)
qed

theorem Extract_unknown_entry_counterexample:
  "GetEntryNameByType plain_externals (entry_id deadbeef_slot) = [] \<and>
   (\<exists>p'. Extract plain_externals (Some (table_header 1, unknown_entry_pkg)) (path_of ''in.pkg'')
            (path_of ''out'') [] zero_locals fresh_PKG = Some (Inr (True, [], p')) \<and>
          fsTable p' = [] \<and>
          files (disk p') \<lparr>is_abs = False, comps = [''out'', ''entry_0xdeadbeef.bin'']\<rparr> = None)"
proof -
  let ?pf = "(table_header 1, unknown_entry_pkg)"
  let ?q = "\<lparr>is_abs = False, comps = [''out'', ''entry_0xdeadbeef.bin'']\<rparr>"
  have nm: "GetEntryNameByType plain_externals (entry_id deadbeef_slot) = []"
    by (simp add: unknown_entry_fields plain_externals_def)
  have offs: "\<forall>k<unat (pkg_table_entry_count (fst ?pf)).
                unat (entry_offset (fst (read_entry
                   \<lparr>content = snd ?pf, pos = unat (pkg_table_entry_offset (fst ?pf)) + 32 * k\<rparr>)))
                  \<le> length (snd ?pf)"
    by (simp add: table_header_fields read_entry_inside unknown_entry_pkg_parts
        unknown_entry_fields)
  have "\<exists>p'. Extract plain_externals (Some ?pf) (path_of ''in.pkg'') (path_of ''out'') []
                 zero_locals fresh_PKG = Some (Inr (True, [], p')) \<and>
              (dataKey p', tweakKey p') =
                PfsGenCryptoKey plain_externals (ekpfsKey p')
                  (fill (seed_init zero_locals)
                     (take 16 (drop (unat (pfs_image_offset (fst ?pf) + 0x370)) (snd ?pf))))
                  (dataKey fresh_PKG) (tweakKey fresh_PKG)"
    using offs
    by (intro Extract_succeeds_without_image)
      (simp_all add: table_header_fields unknown_entry_pkg_parts)
  then obtain p' where e: "Extract plain_externals (Some ?pf) (path_of ''in.pkg'') (path_of ''out'') []
                             zero_locals fresh_PKG = Some (Inr (True, [], p'))"
    by blast
  have "pfs_cache_size (fst ?pf) = 0"
    by (simp add: table_header_fields)
  from Extract_without_image_frame [OF this, of plain_externals "path_of ''in.pkg''"
      "path_of ''out''" "[]" zero_locals fresh_PKG]
  have u: "pfs_untouched fresh_PKG p'"
    and w: "written_under_sce_sys (path_of ''out'') (disk fresh_PKG) (disk p')"
    unfolding e by auto
  have "fsTable p' = []"
    using u by (simp add: pfs_untouched_def fresh_PKG_def)
  moreover have "files (disk p') ?q = None"
  proof (rule ccontr)
    assume "files (disk p') ?q \<noteq> None"
    then have "files (disk p') ?q \<noteq> files (disk fresh_PKG) ?q"
      by (simp add: fresh_PKG_def)
    then obtain nm where "?q = path_div (path_div (path_of ''out'') (path_of ''sce_sys'')) (path_of nm)"
      using w unfolding written_under_sce_sys_def by blast
    then have "comps ?q = comps (path_div (path_div (path_of ''out'') (path_of ''sce_sys'')) (path_of nm))"
      by simp
    then show False
      by (simp add: path_div_def path_of_def)
  qed
  ultimately show ?thesis
    using nm e by blast
qed

end
